theory Spec2Isabelle
  imports Main
begin

section \<open>JSON values and \<^verbatim>\<open>JSON.stringify\<close>\<close>

text \<open>
  The resolver (\<^verbatim>\<open>class PythonResolver\<close>) handles JavaScript values that travel through
  \<^verbatim>\<open>JSON.stringify\<close> and \<^verbatim>\<open>JSON.parse\<close>: the request headers, the proxy configuration and
  the result written by the external Python program. They are modelled by a datatype of
  JSON values. An object is the list of its own properties in enumeration order, which is
  the order \<^verbatim>\<open>JSON.stringify\<close> follows; \<open>own_properties\<close> below gives that order for an
  object built by assignments. A number is held as the text that \<^verbatim>\<open>Number::toString\<close>
  writes for it, which is what \<^verbatim>\<open>JSON.stringify\<close> puts out. Strings are restricted to code
  units below 256.
\<close>

datatype json =
    JNull
  | JBool bool
  | JNum string
  | JStr string
  | JArr "json list"
  | JObj "(string \<times> json) list"

definition digit_char :: "nat \<Rightarrow> char" where
  "digit_char n = char_of (48 + n)"

fun show_nat :: "nat \<Rightarrow> string" where
  "show_nat n = (if n < 10 then [digit_char n] else show_nat (n div 10) @ [digit_char (n mod 10)])"

declare show_nat.simps [simp del]

text \<open>
  The decimal digits of an integer, as a template literal writes a number below
  \<open>10\<^sup>2\<^sup>1\<close> in absolute value; the readings of \<^verbatim>\<open>Date.now()\<close> are such numbers.
\<close>

definition show_int :: "int \<Rightarrow> string" where
  "show_int i = (if i < 0 then CHR ''-'' # show_nat (nat (- i)) else show_nat (nat i))"

definition hex_char :: "nat \<Rightarrow> char" where
  "hex_char n = (if n < 10 then char_of (48 + n) else char_of (87 + n))"

text \<open>
  \<^verbatim>\<open>QuoteJSONString\<close>: the double quote and the backslash are escaped, the control
  characters below U+0020 are written \<^verbatim>\<open>\b \t \n \f \r\<close> or \<^verbatim>\<open>\u00xx\<close>, every other
  code unit is copied.
\<close>

definition quote_char :: "char \<Rightarrow> string" where
  "quote_char c =
     (if c = CHR 0x22 then [CHR 0x5C, CHR 0x22]
      else if c = CHR 0x5C then [CHR 0x5C, CHR 0x5C]
      else if c = CHR 0x08 then [CHR 0x5C, CHR ''b'']
      else if c = CHR 0x09 then [CHR 0x5C, CHR ''t'']
      else if c = CHR 0x0A then [CHR 0x5C, CHR ''n'']
      else if c = CHR 0x0C then [CHR 0x5C, CHR ''f'']
      else if c = CHR 0x0D then [CHR 0x5C, CHR ''r'']
      else if (of_char c :: nat) < 32
        then [CHR 0x5C, CHR ''u'', CHR ''0'', CHR ''0'',
              hex_char ((of_char c :: nat) div 16), hex_char ((of_char c :: nat) mod 16)]
      else [c])"

definition quote :: "string \<Rightarrow> string" where
  "quote s = CHR 0x22 # concat (map quote_char s) @ [CHR 0x22]"

fun join :: "string \<Rightarrow> string list \<Rightarrow> string" where
  "join sep [] = []"
| "join sep [x] = x"
| "join sep (x # y # ys) = x @ sep @ join sep (y # ys)"

text \<open>
  \<^verbatim>\<open>JSON.stringify(value, null, gap)\<close>, after ECMAScript's SerializeJSONProperty:
  \<open>gap\<close> is the indentation unit (empty for the compact form) and \<open>ind\<close> the current
  indentation.
\<close>

fun serialize :: "string \<Rightarrow> string \<Rightarrow> json \<Rightarrow> string" where
  "serialize gap ind JNull = ''null''"
| "serialize gap ind (JBool b) = (if b then ''true'' else ''false'')"
| "serialize gap ind (JNum n) = n"
| "serialize gap ind (JStr s) = quote s"
| "serialize gap ind (JArr xs) =
     (if xs = [] then ''[]''
      else if gap = [] then ''['' @ join '','' (map (serialize gap (ind @ gap)) xs) @ '']''
      else ''['' @ [CHR 0x0A] @ (ind @ gap)
             @ join ('','' @ [CHR 0x0A] @ (ind @ gap)) (map (serialize gap (ind @ gap)) xs)
             @ [CHR 0x0A] @ ind @ '']'')"
| "serialize gap ind (JObj kvs) =
     (if kvs = [] then ''{}''
      else if gap = []
        then ''{'' @ join '','' (map (\<lambda>(k, v). quote k @ '':'' @ serialize gap (ind @ gap) v) kvs) @ ''}''
      else ''{'' @ [CHR 0x0A] @ (ind @ gap)
             @ join ('','' @ [CHR 0x0A] @ (ind @ gap))
                 (map (\<lambda>(k, v). quote k @ '': '' @ serialize gap (ind @ gap) v) kvs)
             @ [CHR 0x0A] @ ind @ ''}'')"

definition JSON_stringify :: "json \<Rightarrow> string" where
  "JSON_stringify v = serialize [] [] v"

definition JSON_stringify_2 :: "json \<Rightarrow> string" where
  "JSON_stringify_2 v = serialize ''  '' [] v"

section \<open>The environment: file system, clock, HTTP client, child processes\<close>

text \<open>
  Everything outside the class is explicit. The world holds the files (path to content),
  the reading of \<^verbatim>\<open>Date.now()\<close> in milliseconds and the log of the commands given to
  \<^verbatim>\<open>execAsync\<close>, most recent first. The clock moves only while the resolver awaits.
  An operation runs to its end without other tasks running at its \<^verbatim>\<open>await\<close> points.
\<close>

record world =
  files :: "string \<rightharpoonup> string"
  clock :: int
  execLog :: "string list"

text \<open>
  The behaviour of the collaborators is a parameter: \<open>axios_get\<close> gives the response body
  or the message of the error thrown (\<open>Inl\<close>); \<open>execAsync\<close> gives the message of the
  rejection or the pair of standard output and standard error, and the world the child
  process leaves behind; \<open>JSON_parse\<close> gives the message of the SyntaxError or the value;
  the three \<open>_error\<close> fields give, per path, the message of the error the file operation
  throws there, if any; \<open>cron_validate\<close> gives the message of the error
  \<^verbatim>\<open>cron.schedule\<close> throws on an expression, if any.
\<close>

record env =
  dirname :: string
  platform :: string
  axios_get :: "string \<Rightarrow> string + string"
  writeFile_error :: "string \<Rightarrow> string option"
  readFile_error :: "string \<Rightarrow> string option"
  unlink_error :: "string \<Rightarrow> string option"
  execAsync :: "string \<Rightarrow> world \<Rightarrow> (string + string \<times> string) \<times> world"
  JSON_parse :: "string \<Rightarrow> string + json"
  cron_validate :: "string \<Rightarrow> string option"

definition fs_existsSync :: "string \<Rightarrow> world \<Rightarrow> bool" where
  "fs_existsSync p w = (case files w p of None \<Rightarrow> False | Some c \<Rightarrow> True)"

definition fs_writeFileSync :: "env \<Rightarrow> string \<Rightarrow> string \<Rightarrow> world \<Rightarrow> string + world" where
  "fs_writeFileSync e p c w =
     (case writeFile_error e p of
        Some msg \<Rightarrow> Inl msg
      | None \<Rightarrow> Inr (w\<lparr>files := (files w)(p \<mapsto> c)\<rparr>))"

definition fs_readFileSync :: "env \<Rightarrow> string \<Rightarrow> world \<Rightarrow> string + string" where
  "fs_readFileSync e p w =
     (case files w p of
        None \<Rightarrow> Inl (''ENOENT: no such file or directory, open '' @ p)
      | Some c \<Rightarrow> (case readFile_error e p of Some msg \<Rightarrow> Inl msg | None \<Rightarrow> Inr c))"

definition fs_unlinkSync :: "env \<Rightarrow> string \<Rightarrow> world \<Rightarrow> string + world" where
  "fs_unlinkSync e p w =
     (case files w p of
        None \<Rightarrow> Inl (''ENOENT: no such file or directory, unlink '' @ p)
      | Some c \<Rightarrow> (case unlink_error e p of
                    Some msg \<Rightarrow> Inl msg
                  | None \<Rightarrow> Inr (w\<lparr>files := (files w)(p := None)\<rparr>)))"

text \<open>\<^verbatim>\<open>String.prototype.includes\<close>: the pattern occurs somewhere in the text.\<close>

fun includes_str :: "string \<Rightarrow> string \<Rightarrow> bool" where
  "includes_str [] pat = (pat = [])"
| "includes_str (c # cs) pat = (take (length pat) (c # cs) = pat \<or> includes_str cs pat)"

section \<open>The resolver's state\<close>

record cache_entry =
  timestamp :: int
  data :: json

record cron_task =
  expression :: string

text \<open>
  The fields of \<^verbatim>\<open>PythonResolver\<close> that change. \<open>None\<close> is \<^verbatim>\<open>null\<close>. The task in
  \<open>cronJob\<close> is the running timer: the resolver holds the only reference to it, and
  \<^verbatim>\<open>stop()\<close> is called on it exactly when the reference is dropped.
\<close>

record resolver =
  resolvedLinksCache :: "string \<rightharpoonup> cache_entry"
  lastExecution :: "int option"
  lastError :: "string option"
  isRunning :: bool
  scriptUrl :: "string option"
  cronJob :: "cron_task option"
  updateInterval :: "string option"

definition scriptPath :: "env \<Rightarrow> string" where
  "scriptPath e = dirname e @ ''/resolver_script.py''"

definition cacheExpiryTime :: int where
  "cacheExpiryTime = 20 * 60 * 1000"

definition pythonCmd :: "env \<Rightarrow> string" where
  "pythonCmd e = (if platform e = ''win32'' then ''python'' else ''python3'')"

definition constructor :: resolver where
  "constructor =
     \<lparr>resolvedLinksCache = Map.empty, lastExecution = None, lastError = None,
      isRunning = False, scriptUrl = None, cronJob = None, updateInterval = None\<rparr>"

section \<open>\<^verbatim>\<open>downloadScript\<close>\<close>

text \<open>
  The URL is recorded first, then the body is fetched and written, then the markers are
  looked for. An error thrown by the request or by the write is caught and reported in
  \<open>lastError\<close>.
\<close>

definition downloadScript :: "env \<Rightarrow> string \<Rightarrow> resolver \<times> world \<Rightarrow> bool \<times> resolver \<times> world" where
  "downloadScript e url sw =
     (let (s, w) = sw;
          s1 = s\<lparr>scriptUrl := Some url\<rparr>
      in case axios_get e url of
           Inl msg \<Rightarrow> (False, s1\<lparr>lastError := Some (''Download error: '' @ msg)\<rparr>, w)
         | Inr body \<Rightarrow>
             (case fs_writeFileSync e (scriptPath e) body w of
                Inl msg \<Rightarrow> (False, s1\<lparr>lastError := Some (''Download error: '' @ msg)\<rparr>, w)
              | Inr w1 \<Rightarrow>
                  if \<not> includes_str body ''def resolve_link'' \<and> \<not> includes_str body ''def resolve_stream''
                  then (False,
                        s1\<lparr>lastError :=
                             Some ''The script must contain a resolve_link or resolve_stream function''\<rparr>,
                        w1)
                  else (True, s1, w1)))"

section \<open>The scheduler\<close>

definition stopScheduledUpdates :: "resolver \<Rightarrow> bool \<times> resolver" where
  "stopScheduledUpdates s =
     (case cronJob s of
        Some job \<Rightarrow> (True, s\<lparr>cronJob := None, updateInterval := None\<rparr>)
      | None \<Rightarrow> (False, s))"

definition clearCache :: "resolver \<Rightarrow> bool \<times> resolver" where
  "clearCache s = (True, s\<lparr>resolvedLinksCache := Map.empty\<rparr>)"

text \<open>
  The callback given to \<^verbatim>\<open>cron.schedule\<close>. A recorded URL is truthy when it is neither
  \<^verbatim>\<open>null\<close> nor the empty string.
\<close>

definition tick :: "env \<Rightarrow> resolver \<times> world \<Rightarrow> resolver \<times> world" where
  "tick e sw =
     (let (s, w) = sw;
          (s1, w1) = (case scriptUrl s of
                        None \<Rightarrow> (s, w)
                      | Some u \<Rightarrow> if u = [] then (s, w) else snd (downloadScript e u (s, w)))
      in (s1\<lparr>resolvedLinksCache := Map.empty\<rparr>, w1))"

section \<open>\<^verbatim>\<open>scheduleUpdate\<close>\<close>

definition is_digit :: "char \<Rightarrow> bool" where
  "is_digit c = (48 \<le> (of_char c :: nat) \<and> (of_char c :: nat) \<le> 57)"

text \<open>
  The regular expression \<^verbatim>\<open>/^\d{1,2}:\d{2}$/\<close>: \<open>n\<close> digits, a colon and two digits, and
  nothing else, for \<open>n\<close> one or two.
\<close>

definition digits_colon_two_digits :: "nat \<Rightarrow> string \<Rightarrow> bool" where
  "digits_colon_two_digits n s =
     (length s = n + 3 \<and> list_all is_digit (take n s) \<and> take 1 (drop n s) = '':''
      \<and> list_all is_digit (drop (n + 1) s))"

definition time_format_test :: "string \<Rightarrow> bool" where
  "time_format_test s = (digits_colon_two_digits 1 s \<or> digits_colon_two_digits 2 s)"

text \<open>\<^verbatim>\<open>Number\<close> on a string of decimal digits.\<close>

definition Number :: "string \<Rightarrow> nat" where
  "Number s = foldl (\<lambda>n c. 10 * n + ((of_char c :: nat) - 48)) 0 s"

text \<open>
  \<^verbatim>\<open>timeFormat.split(':').map(Number)\<close> on a string that passed the test: the text before
  the colon and the text after it.
\<close>

definition split_hours_minutes :: "string \<Rightarrow> nat \<times> nat" where
  "split_hours_minutes timeFormat =
     (let h = takeWhile (\<lambda>c. c \<noteq> CHR '':'') timeFormat
      in (Number h, Number (drop (length h + 1) timeFormat)))"

definition cronExpression :: "nat \<Rightarrow> nat \<Rightarrow> string" where
  "cronExpression hours minutes =
     (if hours = 0 then ''*/'' @ show_nat minutes @ '' * * * *''
      else show_nat minutes @ '' */'' @ show_nat hours @ '' * * *'')"

text \<open>
  The existing schedule is stopped first, then the argument is validated. The hours and
  minutes are natural numbers here, so the source's tests \<^verbatim>\<open>hours < 0\<close> and
  \<^verbatim>\<open>minutes < 0\<close>, which no string of digits satisfies, have no branch. An error thrown by
  \<^verbatim>\<open>cron.schedule\<close> is caught and reported.
\<close>

definition scheduleUpdate :: "env \<Rightarrow> string \<Rightarrow> resolver \<Rightarrow> bool \<times> resolver" where
  "scheduleUpdate e timeFormat s0 =
     (let s = snd (stopScheduledUpdates s0)
      in if timeFormat = [] \<or> \<not> time_format_test timeFormat
         then (False, s\<lparr>lastError := Some ''Invalid time format. Use HH:MM or H:MM''\<rparr>)
         else
           let (hours, minutes) = split_hours_minutes timeFormat
           in if hours > 23 \<or> minutes > 59
              then (False, s\<lparr>lastError := Some ''Invalid time. Hours: 0-23, Minutes: 0-59''\<rparr>)
              else
                (case cron_validate e (cronExpression hours minutes) of
                   Some msg \<Rightarrow> (False, s\<lparr>lastError := Some (''Scheduling error: '' @ msg)\<rparr>)
                 | None \<Rightarrow>
                     (True, s\<lparr>cronJob := Some \<lparr>expression = cronExpression hours minutes\<rparr>,
                               updateInterval := Some timeFormat\<rparr>)))"

section \<open>\<^verbatim>\<open>resolveLink\<close>\<close>

definition cacheKey :: "string \<Rightarrow> json \<Rightarrow> string" where
  "cacheKey url headers = url @ '':'' @ JSON_stringify headers"

definition inputFile :: "env \<Rightarrow> world \<Rightarrow> string" where
  "inputFile e w = dirname e @ ''/temp/input_'' @ show_int (clock w) @ ''.json''"

definition outputFile :: "env \<Rightarrow> world \<Rightarrow> string" where
  "outputFile e w = dirname e @ ''/temp/output_'' @ show_int (clock w) @ ''.json''"

definition resolve_cmd :: "env \<Rightarrow> string \<Rightarrow> string \<Rightarrow> string" where
  "resolve_cmd e inp out =
     pythonCmd e @ '' '' @ scriptPath e @ '' --resolve '' @ [CHR 0x22] @ inp @ [CHR 0x22]
       @ '' '' @ [CHR 0x22] @ out @ [CHR 0x22]"

text \<open>
  Deleting the two temporary files: an error of the first \<^verbatim>\<open>unlinkSync\<close> skips the
  second, and either error is only logged.
\<close>

definition unlink_temporary :: "env \<Rightarrow> string \<Rightarrow> string \<Rightarrow> world \<Rightarrow> world" where
  "unlink_temporary e inp out w =
     (case fs_unlinkSync e inp w of
        Inl msg \<Rightarrow> w
      | Inr w1 \<Rightarrow> (case fs_unlinkSync e out w1 of Inl msg \<Rightarrow> w1 | Inr w2 \<Rightarrow> w2))"

text \<open>
  The body of the outer \<^verbatim>\<open>try\<close>. \<open>Inl msg\<close> is an error thrown out of the body, with the
  state and the world as they are at the throw; \<open>Inr v\<close> is \<^verbatim>\<open>return v\<close>. The inner
  \<^verbatim>\<open>try\<close> around \<^verbatim>\<open>JSON.parse\<close> has its own \<^verbatim>\<open>catch\<close>, which returns \<^verbatim>\<open>null\<close>.
\<close>

definition resolve_try ::
  "env \<Rightarrow> string \<Rightarrow> json \<Rightarrow> string \<Rightarrow> json \<Rightarrow> string \<Rightarrow> resolver \<times> world
     \<Rightarrow> (string + json) \<times> resolver \<times> world" where
  "resolve_try e url headers channelName proxyConfig key sw =
     (let (s, w) = sw;
          s1 = s\<lparr>isRunning := True\<rparr>;
          inputParams = JObj [(''url'', JStr url), (''headers'', headers),
                              (''channel_name'', JStr channelName), (''proxy_config'', proxyConfig)];
          inp = inputFile e w;
          out = outputFile e w
      in case fs_writeFileSync e inp (JSON_stringify_2 inputParams) w of
           Inl msg \<Rightarrow> (Inl msg, s1, w)
         | Inr w1 \<Rightarrow>
             let cmd = resolve_cmd e inp out;
                 (r, w2') = execAsync e cmd w1;
                 w2 = w2'\<lparr>execLog := cmd # execLog w1\<rparr>
             in case r of
                  Inl msg \<Rightarrow> (Inl msg, s1, w2)
                | Inr std \<Rightarrow>
                    if fs_existsSync out w2
                    then (case fs_readFileSync e out w2 of
                            Inl msg \<Rightarrow> (Inl msg, s1, w2)
                          | Inr resultText \<Rightarrow>
                              (case JSON_parse e resultText of
                                 Inl msg \<Rightarrow>
                                   (Inr JNull, s1\<lparr>lastError := Some (''Parsing error: '' @ msg)\<rparr>, w2)
                               | Inr result \<Rightarrow>
                                   (Inr result,
                                    s1\<lparr>resolvedLinksCache :=
                                         (resolvedLinksCache s1)
                                           (key \<mapsto> \<lparr>timestamp = clock w2, data = result\<rparr>),
                                       lastExecution := Some (clock w2),
                                       lastError := None\<rparr>,
                                    unlink_temporary e inp out w2)))
                    else (Inr JNull, s1\<lparr>lastError := Some ''Output file not created''\<rparr>, w2))"

text \<open>
  \<^verbatim>\<open>if (this.isRunning) await new Promise(resolve => setTimeout(resolve, 500))\<close>: the
  world after the wait, 500 ms later.
\<close>

definition after_wait :: "resolver \<Rightarrow> world \<Rightarrow> world" where
  "after_wait s w = (if isRunning s then w\<lparr>clock := clock w + 500\<rparr> else w)"

text \<open>
  What follows the cache check: the test for the program file, the 500 ms wait when
  another call is marked as running, and the \<^verbatim>\<open>try\<close> with its \<^verbatim>\<open>catch\<close> and
  \<^verbatim>\<open>finally\<close>.
\<close>

definition resolve_miss ::
  "env \<Rightarrow> string \<Rightarrow> json \<Rightarrow> string \<Rightarrow> json \<Rightarrow> string \<Rightarrow> resolver \<times> world
     \<Rightarrow> json \<times> resolver \<times> world" where
  "resolve_miss e url headers channelName proxyConfig key sw =
     (let (s, w) = sw
      in if \<not> fs_existsSync (scriptPath e) w
         then (JNull, s\<lparr>lastError := Some ''Python resolver script not found''\<rparr>, w)
         else
           let w0 = after_wait s w;
               (r, s1, w1) = resolve_try e url headers channelName proxyConfig key (s, w0);
               (v, s2) = (case r of
                            Inl msg \<Rightarrow> (JNull, s1\<lparr>lastError := Some (''Execution error: '' @ msg)\<rparr>)
                          | Inr v \<Rightarrow> (v, s1))
           in (v, s2\<lparr>isRunning := False\<rparr>, w1))"

definition resolveLink ::
  "env \<Rightarrow> string \<Rightarrow> json \<Rightarrow> string \<Rightarrow> json \<Rightarrow> resolver \<times> world \<Rightarrow> json \<times> resolver \<times> world" where
  "resolveLink e url headers channelName proxyConfig sw =
     (let (s, w) = sw;
          key = cacheKey url headers
      in case resolvedLinksCache s key of
           None \<Rightarrow> resolve_miss e url headers channelName proxyConfig key (s, w)
         | Some cachedResult \<Rightarrow>
             if clock w - timestamp cachedResult < cacheExpiryTime
             then (data cachedResult, s, w)
             else resolve_miss e url headers channelName proxyConfig key (s, w))"

section \<open>The cron library\<close>

text \<open>
  \<^verbatim>\<open>cron.schedule\<close> comes from the package node-cron, a dependency of the repository. The
  functions above take its validation as the parameter \<open>cron_validate\<close>. What follows is
  the library's reading of an expression of five fields (minute, hour, day of month,
  month, day of week), each \<^verbatim>\<open>*\<close>, \<^verbatim>\<open>*/n\<close> or \<^verbatim>\<open>n\<close>: the library replaces \<^verbatim>\<open>*/n\<close>
  by the values of the field's range that \<open>n\<close> divides, and rejects a field that denotes
  no value of its range. The task runs at every minute whose wall-clock time matches all
  five fields.
\<close>

datatype cron_field = Star | Step nat | Exact nat

fun split_on :: "char \<Rightarrow> string \<Rightarrow> string list" where
  "split_on c [] = [[]]"
| "split_on c (x # xs) =
     (if x = c then [] # split_on c xs
      else (case split_on c xs of [] \<Rightarrow> [[x]] | y # ys \<Rightarrow> (x # y) # ys))"

definition parse_number :: "string \<Rightarrow> nat option" where
  "parse_number s = (if s \<noteq> [] \<and> list_all is_digit s then Some (Number s) else None)"

definition parse_field :: "string \<Rightarrow> cron_field option" where
  "parse_field f =
     (if f = ''*'' then Some Star
      else if take 2 f = ''*/'' then map_option Step (parse_number (drop 2 f))
      else map_option Exact (parse_number f))"

fun field_matches :: "cron_field \<Rightarrow> nat \<Rightarrow> bool" where
  "field_matches Star v = True"
| "field_matches (Step n) v = (n \<noteq> 0 \<and> v mod n = 0)"
| "field_matches (Exact n) v = (v = n)"

definition field_ok :: "string \<Rightarrow> nat \<Rightarrow> nat \<Rightarrow> bool" where
  "field_ok f lo hi =
     (case parse_field f of
        None \<Rightarrow> False
      | Some cf \<Rightarrow> list_ex (field_matches cf) [lo ..< Suc hi])"

definition node_cron_validate :: "string \<Rightarrow> string option" where
  "node_cron_validate expr =
     (case split_on CHR '' '' expr of
        [mi, ho, dm, mo, dw] \<Rightarrow>
          if \<not> field_ok mi 0 59 then Some (mi @ '' is a invalid expression for minute'')
          else if \<not> field_ok ho 0 23 then Some (ho @ '' is a invalid expression for hour'')
          else if \<not> field_ok dm 1 31 then Some (dm @ '' is a invalid expression for day of month'')
          else if \<not> field_ok mo 1 12 then Some (mo @ '' is a invalid expression for month'')
          else if \<not> field_ok dw 0 7 then Some (dw @ '' is a invalid expression for week day'')
          else None
      | _ \<Rightarrow> Some (expr @ '' is a invalid expression''))"

record wall_time =
  minute :: nat
  hour :: nat
  dayOfMonth :: nat
  month :: nat
  dayOfWeek :: nat

definition matches_field :: "string \<Rightarrow> nat \<Rightarrow> bool" where
  "matches_field f v = (case parse_field f of None \<Rightarrow> False | Some cf \<Rightarrow> field_matches cf v)"

definition cron_matches :: "string \<Rightarrow> wall_time \<Rightarrow> bool" where
  "cron_matches expr t =
     (case split_on CHR '' '' expr of
        [mi, ho, dm, mo, dw] \<Rightarrow>
          matches_field mi (minute t) \<and> matches_field ho (hour t)
          \<and> matches_field dm (dayOfMonth t) \<and> matches_field mo (month t)
          \<and> matches_field dw (dayOfWeek t)
      | _ \<Rightarrow> False)"

text \<open>The wall-clock time \<open>t\<close> minutes after midnight on the day \<open>d\<close>, for \<open>t\<close> below 1440.\<close>

definition minute_of_day :: "wall_time \<Rightarrow> nat \<Rightarrow> wall_time" where
  "minute_of_day d t = d\<lparr>minute := t mod 60, hour := t div 60\<rparr>"

section \<open>Notions of the specification\<close>

text \<open>
  The interval specifications the specification calls valid, in its own words: the shape
  H:MM (one or two digits, a colon, two digits) with H from 0 to 23 and MM from 0 to 59.
\<close>

definition digit_value :: "char \<Rightarrow> nat" where
  "digit_value c = (of_char c :: nat) - 48"

fun parse_H_MM :: "string \<Rightarrow> (nat \<times> nat) option" where
  "parse_H_MM [h, c, m1, m2] =
     (if is_digit h \<and> c = CHR '':'' \<and> is_digit m1 \<and> is_digit m2
      then Some (digit_value h, 10 * digit_value m1 + digit_value m2) else None)"
| "parse_H_MM [h1, h2, c, m1, m2] =
     (if is_digit h1 \<and> is_digit h2 \<and> c = CHR '':'' \<and> is_digit m1 \<and> is_digit m2
      then Some (10 * digit_value h1 + digit_value h2, 10 * digit_value m1 + digit_value m2)
      else None)"
| "parse_H_MM s = None"

definition valid_interval_spec :: "string \<Rightarrow> bool" where
  "valid_interval_spec s =
     (case parse_H_MM s of None \<Rightarrow> False | Some (H, M) \<Rightarrow> H \<le> 23 \<and> M \<le> 59)"

text \<open>A cache entry that \<^verbatim>\<open>resolveLink\<close> accepts: present and younger than 20 minutes.\<close>

definition cache_hit :: "resolver \<Rightarrow> world \<Rightarrow> string \<Rightarrow> bool" where
  "cache_hit s w key =
     (case resolvedLinksCache s key of
        None \<Rightarrow> False
      | Some c \<Rightarrow> clock w - timestamp c < cacheExpiryTime)"

section \<open>A concrete environment\<close>

text \<open>
  A host on which the file operations never fail, the server knows two scripts, and the
  external program takes 250 ms and writes the text \<^verbatim>\<open>{}\<close> to the output file of a call
  started at clock 1000.
\<close>

definition example_env :: env where
  "example_env =
     \<lparr>dirname = ''/app'', platform = ''linux'',
      axios_get = (\<lambda>u. if u = ''http://host/resolver.py'' then Inr ''def resolve_link(url): pass''
                        else if u = ''http://host/other.py'' then Inr ''print(1)''
                        else Inl ''Request failed with status code 404''),
      writeFile_error = (\<lambda>p. None),
      readFile_error = (\<lambda>p. None),
      unlink_error = (\<lambda>p. None),
      execAsync = (\<lambda>cmd w. (Inr ([], []),
                     w\<lparr>files := (files w)(''/app/temp/output_1000.json'' \<mapsto> ''{}''),
                       clock := clock w + 250\<rparr>)),
      JSON_parse = (\<lambda>t. if t = ''{}'' then Inr (JObj []) else Inl ''Unexpected end of JSON input''),
      cron_validate = node_cron_validate\<rparr>"

definition example_world :: world where
  "example_world =
     \<lparr>files = [''/app/resolver_script.py'' \<mapsto> ''def resolve_link(url): pass''],
      clock = 1000, execLog = []\<rparr>"

definition bare_world :: world where
  "bare_world = \<lparr>files = Map.empty, clock = 1000, execLog = []\<rparr>"

text \<open>
  The stages of a call that got past the cache and found the program file, named for
  the statements about them: the world once the input file is written, and what
  \<^verbatim>\<open>execAsync\<close> then gives, with the command logged.
\<close>

definition input_written :: "env \<Rightarrow> string \<Rightarrow> json \<Rightarrow> string \<Rightarrow> json \<Rightarrow> world \<Rightarrow> world" where
  "input_written e url headers channelName proxyConfig w0 =
     w0\<lparr>files := (files w0)
          (inputFile e w0 \<mapsto>
             JSON_stringify_2
               (JObj [(''url'', JStr url), (''headers'', headers),
                      (''channel_name'', JStr channelName), (''proxy_config'', proxyConfig)]))\<rparr>"

definition program_run ::
  "env \<Rightarrow> string \<Rightarrow> json \<Rightarrow> string \<Rightarrow> json \<Rightarrow> world \<Rightarrow> (string + string \<times> string) \<times> world" where
  "program_run e url headers channelName proxyConfig w0 =
     (let cmd = resolve_cmd e (inputFile e w0) (outputFile e w0);
          w1 = input_written e url headers channelName proxyConfig w0;
          (r, w2) = execAsync e cmd w1
      in (r, w2\<lparr>execLog := cmd # execLog w1\<rparr>))"

text \<open>Variants of the example host: the external program fails, writes nothing, writes text that is not JSON.\<close>

definition failing_program_env :: env where
  "failing_program_env =
     example_env\<lparr>execAsync := (\<lambda>cmd w. (Inl ''Command failed: exit code 1'', w\<lparr>clock := clock w + 250\<rparr>))\<rparr>"

definition silent_program_env :: env where
  "silent_program_env =
     example_env\<lparr>execAsync := (\<lambda>cmd w. (Inr ([], []), w\<lparr>clock := clock w + 250\<rparr>))\<rparr>"

definition garbling_program_env :: env where
  "garbling_program_env =
     example_env\<lparr>execAsync := (\<lambda>cmd w. (Inr ([], []),
        w\<lparr>files := (files w)(''/app/temp/output_1000.json'' \<mapsto> ''Traceback''),
          clock := clock w + 250\<rparr>))\<rparr>"

text \<open>A resolver marked as running that holds a result cached at clock 900.\<close>

definition busy_resolver :: resolver where
  "busy_resolver =
     constructor\<lparr>isRunning := True,
                  resolvedLinksCache :=
                    [cacheKey ''http://src/ch1'' (JObj []) \<mapsto> \<lparr>timestamp = 900, data = JStr ''http://cdn/ch1''\<rparr>]\<rparr>"

text \<open>
  A first call on the example host, which runs the program at clock 1000 and caches its
  result at clock 1250; and a world some milliseconds later.
\<close>

definition first_call :: "json \<times> resolver \<times> world" where
  "first_call =
     resolveLink example_env ''http://src/ch1'' (JObj []) ''Channel1'' JNull (constructor, example_world)"

definition later :: "int \<Rightarrow> world \<Rightarrow> world" where
  "later ms w = w\<lparr>clock := clock w + ms\<rparr>"

text \<open>
  A JavaScript object with string values, built by assignments \<^verbatim>\<open>o[k] = v\<close> in the
  order of a list: an assignment to a name the object has keeps the name's place and
  replaces its value, an assignment to a new name adds it after the others.
\<close>

fun assign :: "string \<Rightarrow> string \<Rightarrow> (string \<times> string) list \<Rightarrow> (string \<times> string) list" where
  "assign k v [] = [(k, v)]"
| "assign k v ((k', v') # ps) = (if k' = k then (k, v) # ps else (k', v') # assign k v ps)"

definition object_of :: "(string \<times> string) list \<Rightarrow> (string \<times> string) list" where
  "object_of ins = foldl (\<lambda>obj (k, v). assign k v obj) [] ins"

text \<open>
  An array index is a name that is the decimal text of its own numeric value, the value
  being at most \<open>2\<^sup>3\<^sup>2 - 2\<close>. The own properties of an object are enumerated with
  the array indices first, in ascending numeric order, and the other names after them,
  in the order of their creation.
\<close>

definition is_array_index :: "string \<Rightarrow> bool" where
  "is_array_index k = (show_nat (Number k) = k \<and> int (Number k) \<le> 4294967294)"

definition own_properties :: "(string \<times> string) list \<Rightarrow> (string \<times> string) list" where
  "own_properties obj =
     sort_key (\<lambda>(k, v). Number k) (filter (\<lambda>(k, v). is_array_index k) obj)
       @ filter (\<lambda>(k, v). \<not> is_array_index k) obj"

text \<open>The JSON object whose properties, in enumeration order, are the pairs of a list.\<close>

definition string_object :: "(string \<times> string) list \<Rightarrow> json" where
  "string_object kvs = JObj (map (\<lambda>(k, v). (k, JStr v)) kvs)"

text \<open>
  A header mapping as the specification describes it, header names to string values:
  the object built by the assignments of a list, as \<^verbatim>\<open>JSON.stringify\<close> sees it; and the
  key-value pairs it contains.
\<close>

definition header_object :: "(string \<times> string) list \<Rightarrow> json" where
  "header_object ins = string_object (own_properties (object_of ins))"

definition header_pairs :: "(string \<times> string) list \<Rightarrow> (string \<times> string) set" where
  "header_pairs ins = set (object_of ins)"

text \<open>The same two headers, inserted in the two possible orders.\<close>

definition referer_first :: "(string \<times> string) list" where
  "referer_first = [(''Referer'', ''http://src/''), (''User-Agent'', ''VLC'')]"

definition agent_first :: "(string \<times> string) list" where
  "agent_first = [(''User-Agent'', ''VLC''), (''Referer'', ''http://src/'')]"

text \<open>Two properties whose names are array indices, inserted in the two possible orders.\<close>

definition two_then_one :: "(string \<times> string) list" where
  "two_then_one = [(''2'', ''b''), (''1'', ''a'')]"

definition one_then_two :: "(string \<times> string) list" where
  "one_then_two = [(''1'', ''a''), (''2'', ''b'')]"

text \<open>A resolver that holds one result, cached at clock 900 under the first of the two.\<close>

definition cached_resolver :: resolver where
  "cached_resolver =
     constructor\<lparr>resolvedLinksCache :=
                    [cacheKey ''http://src/ch1'' (header_object referer_first)
                       \<mapsto> \<lparr>timestamp = 900, data = JStr ''http://cdn/ch1''\<rparr>]\<rparr>"

text \<open>A resolver with a running five-minute schedule.\<close>

definition scheduled_resolver :: resolver where
  "scheduled_resolver =
     constructor\<lparr>cronJob := Some \<lparr>expression = ''*/5 * * * *''\<rparr>, updateInterval := Some ''0:05''\<rparr>"

text \<open>Midnight of some day, as a wall-clock time.\<close>

definition some_midnight :: wall_time where
  "some_midnight = \<lparr>minute = 0, hour = 0, dayOfMonth = 1, month = 1, dayOfWeek = 1\<rparr>"

section \<open>Properties of \<^verbatim>\<open>downloadScript\<close> and of the scheduled tick\<close>

text \<open>
  C10. After every call \<^verbatim>\<open>downloadScript(u)\<close> the recorded source URL is \<open>u\<close>, whatever the
  request, the write and the validation did: the URL is recorded before the download is
  attempted. A scheduled tick that follows takes it as the target of the re-install
  (when it is not the empty string, which the tick's test takes for no URL).
\<close>

theorem downloadScript_records_url:
  "scriptUrl (fst (snd (downloadScript e u (s, w)))) = Some u
   \<and> (u \<noteq> [] \<longrightarrow>
        tick e (snd (downloadScript e u (s, w)))
          = (let (s', w') = snd (downloadScript e u (snd (downloadScript e u (s, w))))
             in (s'\<lparr>resolvedLinksCache := Map.empty\<rparr>, w')))"
proof -
  obtain ok s1 w1 where d: "downloadScript e u (s, w) = (ok, s1, w1)"
    by (cases "downloadScript e u (s, w)")
  then have u: "scriptUrl s1 = Some u"
    by (auto simp: downloadScript_def Let_def split: sum.splits if_splits)
  then have "tick e (s1, w1)
      = (let (s', w') = snd (downloadScript e u (s1, w1))
         in (s'\<lparr>resolvedLinksCache := Map.empty\<rparr>, w'))" if "u \<noteq> []"
    using that by (simp add: tick_def Let_def split: prod.splits)
  with d u show ?thesis by simp
qed

theorem downloadScript_records_url_witness:
  "scriptUrl (fst (snd (downloadScript example_env ''http://host/gone.py'' (constructor, bare_world))))
     = Some ''http://host/gone.py''
   \<and> fst (downloadScript example_env ''http://host/gone.py'' (constructor, bare_world)) = False
   \<and> ''http://host/gone.py'' \<noteq> []
   \<and> tick example_env (snd (downloadScript example_env ''http://host/gone.py'' (constructor, bare_world)))
       = (let (s', w') = snd (downloadScript example_env ''http://host/gone.py''
                 (snd (downloadScript example_env ''http://host/gone.py'' (constructor, bare_world))))
          in (s'\<lparr>resolvedLinksCache := Map.empty\<rparr>, w'))"
proof -
  have "fst (downloadScript example_env ''http://host/gone.py'' (constructor, bare_world)) = False"
    by (simp add: downloadScript_def example_env_def)
  with downloadScript_records_url [of example_env "''http://host/gone.py''" constructor bare_world]
  show ?thesis by simp
qed

text \<open>
  C6. At the end of every scheduler tick the result cache is empty, whether or not a
  source URL is recorded and whether or not the re-install succeeds.
\<close>

theorem tick_clears_cache:
  "resolvedLinksCache (fst (tick e (s, w))) = Map.empty"
  by (simp add: tick_def Let_def split: option.splits prod.splits)

theorem tick_clears_cache_witness:
  "resolvedLinksCache
     (fst (tick example_env
        (constructor\<lparr>scriptUrl := Some ''http://host/gone.py'',
                      resolvedLinksCache := [''k'' \<mapsto> \<lparr>timestamp = 0, data = JNull\<rparr>]\<rparr>,
         bare_world))) = Map.empty
   \<and> lastError
       (fst (tick example_env
          (constructor\<lparr>scriptUrl := Some ''http://host/gone.py'',
                        resolvedLinksCache := [''k'' \<mapsto> \<lparr>timestamp = 0, data = JNull\<rparr>]\<rparr>,
           bare_world))) = Some ''Download error: Request failed with status code 404''"
  using tick_clears_cache [of example_env
      "constructor\<lparr>scriptUrl := Some ''http://host/gone.py'',
                    resolvedLinksCache := [''k'' \<mapsto> \<lparr>timestamp = 0, data = JNull\<rparr>]\<rparr>" bare_world]
  by (simp add: tick_def downloadScript_def example_env_def constructor_def)

text \<open>
  C8. When the downloaded body contains neither \<^verbatim>\<open>def resolve_link\<close> nor
  \<^verbatim>\<open>def resolve_stream\<close>, \<^verbatim>\<open>downloadScript\<close> returns failure and sets \<open>lastError\<close>; the
  write comes before the validation, so where the write itself does not throw the program
  file holds the invalid body afterwards.
\<close>

theorem downloadScript_invalid_body:
  assumes "axios_get e u = Inr body"
    and "\<not> includes_str body ''def resolve_link''"
    and "\<not> includes_str body ''def resolve_stream''"
  shows "fst (downloadScript e u (s, w)) = False
    \<and> lastError (fst (snd (downloadScript e u (s, w)))) \<noteq> None
    \<and> (writeFile_error e (scriptPath e) = None \<longrightarrow>
         lastError (fst (snd (downloadScript e u (s, w))))
           = Some ''The script must contain a resolve_link or resolve_stream function''
         \<and> files (snd (snd (downloadScript e u (s, w)))) (scriptPath e) = Some body)"
  using assms
  by (simp add: downloadScript_def fs_writeFileSync_def Let_def split: option.splits)

theorem downloadScript_invalid_body_witness:
  "axios_get example_env ''http://host/other.py'' = Inr ''print(1)''
   \<and> \<not> includes_str ''print(1)'' ''def resolve_link''
   \<and> \<not> includes_str ''print(1)'' ''def resolve_stream''
   \<and> writeFile_error example_env (scriptPath example_env) = None
   \<and> fst (downloadScript example_env ''http://host/other.py'' (constructor, example_world)) = False
   \<and> lastError (fst (snd (downloadScript example_env ''http://host/other.py'' (constructor, example_world))))
       = Some ''The script must contain a resolve_link or resolve_stream function''
   \<and> files (snd (snd (downloadScript example_env ''http://host/other.py'' (constructor, example_world))))
       ''/app/resolver_script.py'' = Some ''print(1)''"
proof -
  have a: "axios_get example_env ''http://host/other.py'' = Inr ''print(1)''"
    by (simp add: example_env_def)
  have b: "\<not> includes_str ''print(1)'' ''def resolve_link''"
    by simp
  have c: "\<not> includes_str ''print(1)'' ''def resolve_stream''"
    by simp
  have d: "writeFile_error example_env (scriptPath example_env) = None"
    by (simp add: example_env_def)
  have p: "scriptPath example_env = ''/app/resolver_script.py''"
    by (simp add: scriptPath_def example_env_def)
  from downloadScript_invalid_body [OF a b c, of constructor example_world] a b c d p
  show ?thesis by simp
qed

section \<open>Facts about the time format and the cron expression\<close>

lemma length4: "length s = 4 \<Longrightarrow> \<exists>a b c d. s = [a, b, c, d]"
  by (auto simp: length_Suc_conv numeral_eq_Suc)

lemma length5: "length s = 5 \<Longrightarrow> \<exists>a b c d e. s = [a, b, c, d, e]"
  by (auto simp: length_Suc_conv numeral_eq_Suc)

lemma is_digit_not_colon: "is_digit c \<Longrightarrow> c \<noteq> CHR '':''"
  by (auto simp: is_digit_def)

lemma time_format_parse:
  "time_format_test tf \<Longrightarrow> parse_H_MM tf = Some (split_hours_minutes tf)"
  unfolding time_format_test_def digits_colon_two_digits_def
  by (auto dest!: length4 length5
      simp: split_hours_minutes_def Number_def digit_value_def is_digit_not_colon)

lemma parse_time_format:
  "parse_H_MM tf = Some hm \<Longrightarrow> time_format_test tf"
  unfolding time_format_test_def digits_colon_two_digits_def
  by (induction tf rule: parse_H_MM.induct) (auto split: if_splits)

lemma valid_interval_spec_iff:
  "valid_interval_spec tf \<longleftrightarrow>
     time_format_test tf \<and> fst (split_hours_minutes tf) \<le> 23 \<and> snd (split_hours_minutes tf) \<le> 59"
proof (cases "parse_H_MM tf")
  case None
  then show ?thesis
    using time_format_parse [of tf] by (auto simp: valid_interval_spec_def)
next
  case (Some hm)
  then have "time_format_test tf" by (rule parse_time_format)
  with Some time_format_parse [of tf] show ?thesis
    by (auto simp: valid_interval_spec_def split: prod.splits)
qed

lemma time_format_test_nonempty: "time_format_test tf \<Longrightarrow> tf \<noteq> []"
  by (auto simp: time_format_test_def digits_colon_two_digits_def)

lemma is_digit_digit_char: "n < 10 \<Longrightarrow> is_digit (digit_char n)"
  by (simp add: is_digit_def digit_char_def)

lemma digit_value_digit_char: "n < 10 \<Longrightarrow> of_char (digit_char n) - 48 = n"
  by (simp add: digit_char_def)

lemma show_nat_digits: "list_all is_digit (show_nat n)"
proof (induction n rule: show_nat.induct)
  case (1 n)
  then show ?case
    by (subst show_nat.simps) (simp add: is_digit_digit_char)
qed

lemma show_nat_nonempty: "show_nat n \<noteq> []"
  by (subst show_nat.simps) simp

lemma Number_snoc: "Number (xs @ [c]) = 10 * Number xs + (of_char c - 48)"
  by (simp add: Number_def)

lemma Number_show_nat: "Number (show_nat n) = n"
proof (induction n rule: show_nat.induct)
  case (1 n)
  show ?case
  proof (cases "n < 10")
    case True
    then show ?thesis
      by (subst show_nat.simps) (simp add: Number_def digit_value_digit_char)
  next
    case False
    with 1 show ?thesis
      by (subst show_nat.simps) (simp add: Number_snoc digit_value_digit_char)
  qed
qed

lemma parse_number_show_nat: "parse_number (show_nat n) = Some n"
  by (simp add: parse_number_def show_nat_digits show_nat_nonempty Number_show_nat)

lemma show_nat_no_space: "CHR '' '' \<notin> set (show_nat n)"
  using show_nat_digits [of n] by (auto simp: list_all_iff is_digit_def)

lemma show_nat_no_star: "CHR ''*'' \<notin> set (show_nat n)"
  using show_nat_digits [of n] by (auto simp: list_all_iff is_digit_def)

lemma split_on_none: "c \<notin> set xs \<Longrightarrow> split_on c xs = [xs]"
  by (induction xs) auto

lemma split_on_append: "c \<notin> set xs \<Longrightarrow> split_on c (xs @ c # ys) = xs # split_on c ys"
  by (induction xs) auto

lemma parse_field_exact: "parse_field (show_nat n) = Some (Exact n)"
proof -
  have "CHR ''*'' \<notin> set (take 2 (show_nat n))"
    using show_nat_no_star [of n] set_take_subset [of 2 "show_nat n"] by blast
  then have "take 2 (show_nat n) \<noteq> ''*/''"
    by auto
  moreover have "show_nat n \<noteq> ''*''"
    using show_nat_no_star [of n] by auto
  ultimately show ?thesis
    by (simp add: parse_field_def parse_number_show_nat)
qed

lemma parse_field_step: "parse_field (CHR ''*'' # CHR ''/'' # show_nat n) = Some (Step n)"
  by (simp add: parse_field_def parse_number_show_nat)

lemma parse_field_star: "parse_field ''*'' = Some Star"
  by (simp add: parse_field_def)

lemma field_ok_exact: "field_ok (show_nat n) lo hi \<longleftrightarrow> lo \<le> n \<and> n \<le> hi"
  by (auto simp: field_ok_def parse_field_exact list_ex_iff)

lemma field_ok_step: "field_ok (CHR ''*'' # CHR ''/'' # show_nat n) 0 hi \<longleftrightarrow> n \<noteq> 0"
proof -
  have "n \<noteq> 0 \<Longrightarrow> \<exists>v\<in>set [0 ..< Suc hi]. v mod n = 0"
    by (rule bexI [of _ 0]) auto
  then show ?thesis
    by (auto simp: field_ok_def parse_field_step list_ex_iff)
qed

lemma field_ok_star: "field_ok ''*'' lo hi \<longleftrightarrow> lo \<le> hi"
  by (auto simp: field_ok_def parse_field_star list_ex_iff)

lemma split_cronExpression:
  "split_on CHR '' '' (cronExpression h m) =
     (if h = 0 then [CHR ''*'' # CHR ''/'' # show_nat m, ''*'', ''*'', ''*'', ''*'']
      else [show_nat m, CHR ''*'' # CHR ''/'' # show_nat h, ''*'', ''*'', ''*''])"
proof -
  have a: "CHR '' '' \<notin> set (''*/'' @ show_nat n)" for n
    using show_nat_no_space [of n] by simp
  show ?thesis
    using split_on_append [OF a, of m "''* * * *''"]
      split_on_append [OF show_nat_no_space, of m "''*/'' @ show_nat h @ '' * * *''"]
      split_on_append [OF a, of h "''* * *''"]
    by (simp add: cronExpression_def)
qed

lemma node_cron_validate_cronExpression:
  "m \<le> 59 \<Longrightarrow> node_cron_validate (cronExpression h m) = None \<longleftrightarrow> \<not> (h = 0 \<and> m = 0)"
  by (simp add: node_cron_validate_def split_cronExpression field_ok_exact field_ok_step
      field_ok_star)

lemma matches_field_exact: "matches_field (show_nat n) v \<longleftrightarrow> v = n"
  by (simp add: matches_field_def parse_field_exact)

lemma matches_field_step:
  "matches_field (CHR ''*'' # CHR ''/'' # show_nat n) v \<longleftrightarrow> n \<noteq> 0 \<and> v mod n = 0"
  by (simp add: matches_field_def parse_field_step)

lemma matches_field_star: "matches_field ''*'' v"
  by (simp add: matches_field_def parse_field_star)

lemma cron_matches_cronExpression:
  "0 < h \<Longrightarrow> cron_matches (cronExpression h m) t \<longleftrightarrow> minute t = m \<and> hour t mod h = 0"
  by (simp add: cron_matches_def split_cronExpression matches_field_exact matches_field_step
      matches_field_star)

lemma cron_matches_cronExpression_0:
  "cron_matches (cronExpression 0 m) t \<longleftrightarrow> m \<noteq> 0 \<and> minute t mod m = 0"
  by (simp add: cron_matches_def split_cronExpression matches_field_exact matches_field_step
      matches_field_star)


lemma scheduleUpdate_cases:
  "scheduleUpdate e tf s =
     (if \<not> time_format_test tf
      then (False, (snd (stopScheduledUpdates s))
                     \<lparr>lastError := Some ''Invalid time format. Use HH:MM or H:MM''\<rparr>)
      else case parse_H_MM tf of
        None \<Rightarrow> (False, snd (stopScheduledUpdates s))
      | Some (H, M) \<Rightarrow>
          if H > 23 \<or> M > 59
          then (False, (snd (stopScheduledUpdates s))
                         \<lparr>lastError := Some ''Invalid time. Hours: 0-23, Minutes: 0-59''\<rparr>)
          else (case cron_validate e (cronExpression H M) of
                  Some msg \<Rightarrow>
                    (False, (snd (stopScheduledUpdates s))
                              \<lparr>lastError := Some (''Scheduling error: '' @ msg)\<rparr>)
                | None \<Rightarrow>
                    (True, (snd (stopScheduledUpdates s))
                             \<lparr>cronJob := Some \<lparr>expression = cronExpression H M\<rparr>,
                              updateInterval := Some tf\<rparr>)))"
proof (cases "time_format_test tf")
  case False
  then show ?thesis by (simp add: scheduleUpdate_def)
next
  case True
  then have "parse_H_MM tf = Some (split_hours_minutes tf)" "tf \<noteq> []"
    by (simp_all add: time_format_parse time_format_test_nonempty)
  with True show ?thesis
    by (simp add: scheduleUpdate_def Let_def split: prod.splits)
qed

lemma cronJob_stop: "cronJob (snd (stopScheduledUpdates s)) = None"
  by (simp add: stopScheduledUpdates_def split: option.splits)

section \<open>Properties of \<^verbatim>\<open>scheduleUpdate\<close>\<close>

text \<open>
  C2, as the specification states it: an invalid interval specification leaves an active
  schedule unchanged. The code stops the schedule before it validates: with a
  five-minute schedule running, \<^verbatim>\<open>scheduleUpdate("24:00")\<close> fails and no schedule is left.
\<close>

theorem scheduleUpdate_invalid_counterexample:
  "\<not> valid_interval_spec ''24:00''
   \<and> cronJob scheduled_resolver = Some \<lparr>expression = ''*/5 * * * *''\<rparr>
   \<and> fst (scheduleUpdate example_env ''24:00'' scheduled_resolver) = False
   \<and> cronJob (snd (scheduleUpdate example_env ''24:00'' scheduled_resolver)) = None
   \<and> updateInterval (snd (scheduleUpdate example_env ''24:00'' scheduled_resolver)) = None"
  by code_simp

text \<open>
  C2, amended: for every invalid interval specification \<^verbatim>\<open>scheduleUpdate\<close> returns
  failure with \<open>lastError\<close> set to one of the two validation messages, and the resolver is
  otherwise as \<^verbatim>\<open>stopScheduledUpdates\<close> leaves it: no schedule is active afterwards.
\<close>

theorem scheduleUpdate_invalid_stops_schedule:
  assumes "\<not> valid_interval_spec tf"
  shows "fst (scheduleUpdate e tf s) = False
    \<and> cronJob (snd (scheduleUpdate e tf s)) = None
    \<and> (lastError (snd (scheduleUpdate e tf s)) = Some ''Invalid time format. Use HH:MM or H:MM''
       \<or> lastError (snd (scheduleUpdate e tf s)) = Some ''Invalid time. Hours: 0-23, Minutes: 0-59'')
    \<and> (snd (scheduleUpdate e tf s))\<lparr>lastError := None\<rparr>
        = (snd (stopScheduledUpdates s))\<lparr>lastError := None\<rparr>"
proof (cases "time_format_test tf")
  case False
  then show ?thesis by (simp add: scheduleUpdate_cases cronJob_stop)
next
  case True
  then have p: "parse_H_MM tf = Some (split_hours_minutes tf)"
    by (rule time_format_parse)
  with assms have "fst (split_hours_minutes tf) > 23 \<or> snd (split_hours_minutes tf) > 59"
    by (auto simp: valid_interval_spec_def split: prod.splits)
  with True p show ?thesis
    by (auto simp: scheduleUpdate_cases cronJob_stop split: prod.splits)
qed

theorem scheduleUpdate_invalid_stops_schedule_witness:
  "\<not> valid_interval_spec ''1:60''
   \<and> fst (scheduleUpdate example_env ''1:60'' scheduled_resolver) = False
   \<and> cronJob (snd (scheduleUpdate example_env ''1:60'' scheduled_resolver)) = None
   \<and> lastError (snd (scheduleUpdate example_env ''1:60'' scheduled_resolver))
       = Some ''Invalid time. Hours: 0-23, Minutes: 0-59''"
proof -
  have a: "\<not> valid_interval_spec ''1:60''"
    by code_simp
  have b: "lastError (snd (scheduleUpdate example_env ''1:60'' scheduled_resolver))
       = Some ''Invalid time. Hours: 0-23, Minutes: 0-59''"
    by code_simp
  from scheduleUpdate_invalid_stops_schedule [OF a, of example_env scheduled_resolver] a b
  show ?thesis by simp
qed

text \<open>
  C5, as the specification states it: \<^verbatim>\<open>scheduleUpdate\<close> succeeds for every H:MM with H
  from 0 to 23 and M from 0 to 59, among them \<^verbatim>\<open>0:5\<close>. The regular expression wants two
  digits of minutes, so \<^verbatim>\<open>0:5\<close> fails.
\<close>

theorem scheduleUpdate_range_counterexample:
  "fst (scheduleUpdate example_env ''0:5'' constructor) = False
   \<and> lastError (snd (scheduleUpdate example_env ''0:5'' constructor))
       = Some ''Invalid time format. Use HH:MM or H:MM''"
  by code_simp

text \<open>
  C5, amended: \<^verbatim>\<open>scheduleUpdate(s)\<close> succeeds if and only if \<open>s\<close> is one or two digits, a
  colon and exactly two digits, with H from 0 to 23 and M from 0 to 59, and
  \<^verbatim>\<open>cron.schedule\<close> does not throw on the expression built from H and M. With the cron
  library's validation that is every such specification but H = 0 with M = 0, whose
  expression \<^verbatim>\<open>*/0 * * * *\<close> denotes no minute.
\<close>

theorem scheduleUpdate_succeeds_iff:
  "(fst (scheduleUpdate e tf s) \<longleftrightarrow>
      (case parse_H_MM tf of
         None \<Rightarrow> False
       | Some (H, M) \<Rightarrow> H \<le> 23 \<and> M \<le> 59 \<and> cron_validate e (cronExpression H M) = None))
   \<and> (cron_validate e = node_cron_validate \<longrightarrow>
        (fst (scheduleUpdate e tf s) \<longleftrightarrow> valid_interval_spec tf \<and> parse_H_MM tf \<noteq> Some (0, 0)))"
proof -
  have a: "fst (scheduleUpdate e tf s) \<longleftrightarrow>
      (case parse_H_MM tf of
         None \<Rightarrow> False
       | Some (H, M) \<Rightarrow> H \<le> 23 \<and> M \<le> 59 \<and> cron_validate e (cronExpression H M) = None)"
    using parse_time_format [of tf]
    by (auto simp: scheduleUpdate_cases split: option.splits prod.splits)
  have b: "fst (scheduleUpdate e tf s) \<longleftrightarrow> valid_interval_spec tf \<and> parse_H_MM tf \<noteq> Some (0, 0)"
    if "cron_validate e = node_cron_validate"
    unfolding a using that
    by (auto simp: valid_interval_spec_def node_cron_validate_cronExpression
        split: option.splits prod.splits)
  from a b show ?thesis by blast
qed

theorem scheduleUpdate_succeeds_iff_witness:
  "cron_validate example_env = node_cron_validate
   \<and> valid_interval_spec ''0:05'' \<and> fst (scheduleUpdate example_env ''0:05'' constructor)
   \<and> valid_interval_spec ''2:30'' \<and> fst (scheduleUpdate example_env ''2:30'' constructor)
   \<and> \<not> valid_interval_spec ''24:00'' \<and> \<not> fst (scheduleUpdate example_env ''24:00'' constructor)
   \<and> \<not> valid_interval_spec ''1:60'' \<and> \<not> fst (scheduleUpdate example_env ''1:60'' constructor)
   \<and> valid_interval_spec ''0:00'' \<and> \<not> fst (scheduleUpdate example_env ''0:00'' constructor)"
proof -
  have c: "cron_validate example_env = node_cron_validate"
    by (simp add: example_env_def)
  have v: "valid_interval_spec ''0:05''" "valid_interval_spec ''2:30''"
    "\<not> valid_interval_spec ''24:00''" "\<not> valid_interval_spec ''1:60''"
    "valid_interval_spec ''0:00''"
    by code_simp+
  have p: "parse_H_MM ''0:05'' \<noteq> Some (0, 0)" "parse_H_MM ''2:30'' \<noteq> Some (0, 0)"
    "parse_H_MM ''0:00'' = Some (0, 0)"
    by code_simp+
  from c v p
    scheduleUpdate_succeeds_iff [of example_env "''0:05''" constructor]
    scheduleUpdate_succeeds_iff [of example_env "''2:30''" constructor]
    scheduleUpdate_succeeds_iff [of example_env "''24:00''" constructor]
    scheduleUpdate_succeeds_iff [of example_env "''1:60''" constructor]
    scheduleUpdate_succeeds_iff [of example_env "''0:00''" constructor]
  show ?thesis by blast
qed

text \<open>
  C4. For a valid H:MM with H at least 1, the task that \<^verbatim>\<open>scheduleUpdate\<close> installs has
  the expression \<^verbatim>\<open>MM */H * * *\<close>: it runs at the minute MM of every hour of the day
  that H divides. For \<^verbatim>\<open>2:30\<close> that is 00:30, 02:30, 04:30 and so on, 120 minutes apart,
  not every 150 minutes as the message \<^verbatim>\<open>every 2 hours and 30 minutes\<close> says.
\<close>

theorem scheduleUpdate_hourly_timer:
  assumes "parse_H_MM tf = Some (H, M)" and "1 \<le> H" and "H \<le> 23" and "M \<le> 59"
    and "cron_validate e = node_cron_validate"
  shows "fst (scheduleUpdate e tf s) = True
    \<and> cronJob (snd (scheduleUpdate e tf s)) = Some \<lparr>expression = cronExpression H M\<rparr>
    \<and> (\<forall>t. cron_matches (cronExpression H M) t \<longleftrightarrow> minute t = M \<and> hour t mod H = 0)"
proof -
  have "time_format_test tf"
    using assms(1) by (rule parse_time_format)
  moreover have "node_cron_validate (cronExpression H M) = None"
    using assms(2,4) by (simp add: node_cron_validate_cronExpression)
  ultimately show ?thesis
    using assms by (simp add: scheduleUpdate_cases cron_matches_cronExpression)
qed

theorem scheduleUpdate_hourly_timer_witness:
  "parse_H_MM ''2:30'' = Some (2, 30)
   \<and> cron_validate example_env = node_cron_validate
   \<and> fst (scheduleUpdate example_env ''2:30'' constructor) = True
   \<and> cronJob (snd (scheduleUpdate example_env ''2:30'' constructor))
       = Some \<lparr>expression = ''30 */2 * * *''\<rparr>
   \<and> cron_matches ''30 */2 * * *'' (minute_of_day some_midnight 30)
   \<and> cron_matches ''30 */2 * * *'' (minute_of_day some_midnight (30 + 120))
   \<and> list_all (\<lambda>k. \<not> cron_matches ''30 */2 * * *'' (minute_of_day some_midnight k)) [31 ..< 150]
   \<and> \<not> cron_matches ''30 */2 * * *'' (minute_of_day some_midnight (30 + 150))"
proof -
  have a: "parse_H_MM ''2:30'' = Some (2, 30)"
    by code_simp
  have c: "cron_validate example_env = node_cron_validate"
    by (simp add: example_env_def)
  have x: "cronExpression 2 30 = ''30 */2 * * *''"
    by code_simp
  have m: "minute (minute_of_day some_midnight k) = k mod 60"
    "hour (minute_of_day some_midnight k) = k div 60" for k
    by (simp_all add: minute_of_day_def)
  have g: "list_all (\<lambda>k. \<not> (k mod 60 = 30 \<and> k div 60 mod 2 = 0)) [31 ..< 150]"
    by code_simp
  from scheduleUpdate_hourly_timer [OF a _ _ _ c, of constructor] a c g
  show ?thesis by (simp add: x m)
qed

section \<open>Facts about \<^verbatim>\<open>resolveLink\<close>\<close>

lemma resolveLink_hit:
  "resolvedLinksCache s (cacheKey url headers) = Some c \<Longrightarrow> clock w - timestamp c < cacheExpiryTime
   \<Longrightarrow> resolveLink e url headers n p (s, w) = (data c, s, w)"
  by (simp add: resolveLink_def)

lemma resolveLink_miss:
  "\<not> cache_hit s w (cacheKey url headers)
   \<Longrightarrow> resolveLink e url headers n p (s, w) = resolve_miss e url headers n p (cacheKey url headers) (s, w)"
  by (simp add: resolveLink_def cache_hit_def split: option.splits)

lemma resolve_try_unfold:
  "resolve_try e url headers n p key (s, w0) =
     (case writeFile_error e (inputFile e w0) of
        Some msg \<Rightarrow> (Inl msg, s\<lparr>isRunning := True\<rparr>, w0)
      | None \<Rightarrow>
          (case program_run e url headers n p w0 of
             (Inl msg, w2) \<Rightarrow> (Inl msg, s\<lparr>isRunning := True\<rparr>, w2)
           | (Inr std, w2) \<Rightarrow>
               (case files w2 (outputFile e w0) of
                  None \<Rightarrow> (Inr JNull, s\<lparr>isRunning := True, lastError := Some ''Output file not created''\<rparr>, w2)
                | Some text \<Rightarrow>
                    (case readFile_error e (outputFile e w0) of
                       Some msg \<Rightarrow> (Inl msg, s\<lparr>isRunning := True\<rparr>, w2)
                     | None \<Rightarrow>
                         (case JSON_parse e text of
                            Inl msg \<Rightarrow> (Inr JNull, s\<lparr>isRunning := True, lastError := Some (''Parsing error: '' @ msg)\<rparr>, w2)
                          | Inr result \<Rightarrow>
                              (Inr result,
                               s\<lparr>isRunning := True,
                                 resolvedLinksCache := (resolvedLinksCache s)(key \<mapsto> \<lparr>timestamp = clock w2, data = result\<rparr>),
                                 lastExecution := Some (clock w2), lastError := None\<rparr>,
                               unlink_temporary e (inputFile e w0) (outputFile e w0) w2))))))"
  by (auto simp: resolve_try_def program_run_def input_written_def fs_writeFileSync_def
      fs_existsSync_def fs_readFileSync_def Let_def
      split: option.splits sum.splits prod.splits)


lemma resolve_miss_unfold:
  "resolve_miss e url headers n p key (s, w) =
     (case files w (scriptPath e) of
        None \<Rightarrow> (JNull, s\<lparr>lastError := Some ''Python resolver script not found''\<rparr>, w)
      | Some text \<Rightarrow>
          (case resolve_try e url headers n p key (s, after_wait s w) of
             (Inl msg, s1, w1) \<Rightarrow>
               (JNull, s1\<lparr>lastError := Some (''Execution error: '' @ msg), isRunning := False\<rparr>, w1)
           | (Inr v, s1, w1) \<Rightarrow> (v, s1\<lparr>isRunning := False\<rparr>, w1)))"
  by (auto simp: resolve_miss_def fs_existsSync_def Let_def
      split: option.splits sum.splits prod.splits)

lemma execLog_unlink_temporary: "execLog (unlink_temporary e a b w) = execLog w"
  by (simp add: unlink_temporary_def fs_unlinkSync_def split: option.splits sum.splits)

lemma execLog_program_run:
  "execLog (snd (program_run e url headers n p w0))
     = resolve_cmd e (inputFile e w0) (outputFile e w0) # execLog w0"
  by (simp add: program_run_def input_written_def Let_def split: prod.splits)

lemma after_wait_cache: "after_wait (s\<lparr>resolvedLinksCache := C\<rparr>) w = after_wait s w"
  by (simp add: after_wait_def)

lemma execLog_after_wait: "execLog (after_wait s w) = execLog w"
  by (simp add: after_wait_def)

lemma resolve_miss_cache:
  "fst (resolve_miss e url headers n p key (s\<lparr>resolvedLinksCache := C\<rparr>, w))
     = fst (resolve_miss e url headers n p key (s, w))
   \<and> snd (snd (resolve_miss e url headers n p key (s\<lparr>resolvedLinksCache := C\<rparr>, w)))
     = snd (snd (resolve_miss e url headers n p key (s, w)))
   \<and> (fst (snd (resolve_miss e url headers n p key (s\<lparr>resolvedLinksCache := C\<rparr>, w))))
        \<lparr>resolvedLinksCache := D\<rparr>
     = (fst (snd (resolve_miss e url headers n p key (s, w))))\<lparr>resolvedLinksCache := D\<rparr>"
  by (auto simp: resolve_miss_unfold resolve_try_unfold after_wait_cache
      split: option.splits sum.splits prod.splits)

lemma resolve_miss_invokes:
  "fs_existsSync (scriptPath e) w \<Longrightarrow> writeFile_error e (inputFile e (after_wait s w)) = None
   \<Longrightarrow> execLog (snd (snd (resolve_miss e url headers n p key (s, w))))
       = resolve_cmd e (inputFile e (after_wait s w)) (outputFile e (after_wait s w)) # execLog w"
  using execLog_program_run [of e url headers n p "after_wait s w"]
  by (auto simp: resolve_miss_unfold resolve_try_unfold fs_existsSync_def
      execLog_unlink_temporary execLog_after_wait
      split: option.splits sum.splits prod.splits)

lemma resolve_miss_success:
  "resolve_miss e url headers n p key (s, w) = (r, s1, w1) \<Longrightarrow> lastError s1 = None
   \<Longrightarrow> \<exists>c. resolvedLinksCache s1 key = Some c \<and> data c = r"
  by (auto simp: resolve_miss_unfold resolve_try_unfold
      split: option.splits sum.splits prod.splits)

lemma show_int_1000: "show_int 1000 = ''1000''"
  by code_simp

lemmas example_eval =
  resolveLink_def resolve_miss_unfold resolve_try_unfold program_run_def input_written_def
  example_env_def failing_program_env_def silent_program_env_def garbling_program_env_def
  example_world_def bare_world_def constructor_def scriptPath_def after_wait_def
  inputFile_def outputFile_def show_int_1000 Let_def

section \<open>Properties of \<^verbatim>\<open>resolveLink\<close>\<close>

text \<open>
  C1. When a call of \<^verbatim>\<open>resolveLink\<close> has succeeded (it was served from the cache, or it
  ran the program and left \<open>lastError\<close> empty), the cache holds its result under the
  fingerprint of the url and the headers. A later call with the same url and headers,
  less than 20 minutes after the timestamp of that entry, returns the result and changes
  neither the resolver nor the world, so no command is run. From 20 minutes on the entry
  is ignored: the call goes as it would with the entry absent, and where the program
  file exists and the input file can be written, the program is run.
\<close>

theorem resolveLink_cache_window:
  assumes "resolveLink e url headers n p (s0, w0) = (r, s1, w1)"
    and "cache_hit s0 w0 (cacheKey url headers) \<or> lastError s1 = None"
  shows "\<exists>c. resolvedLinksCache s1 (cacheKey url headers) = Some c \<and> data c = r
     \<and> (\<forall>n' p' w'. clock w' - timestamp c < 20 * 60 * 1000 \<longrightarrow>
           resolveLink e url headers n' p' (s1, w') = (r, s1, w'))
     \<and> (\<forall>n' p' w'. 20 * 60 * 1000 \<le> clock w' - timestamp c \<longrightarrow>
          (let forgotten = s1\<lparr>resolvedLinksCache :=
                               (resolvedLinksCache s1)(cacheKey url headers := None)\<rparr>;
               R = resolveLink e url headers n' p' (s1, w');
               R' = resolveLink e url headers n' p' (forgotten, w')
           in fst R = fst R' \<and> snd (snd R) = snd (snd R')
              \<and> (fst (snd R))\<lparr>resolvedLinksCache := Map.empty\<rparr>
                  = (fst (snd R'))\<lparr>resolvedLinksCache := Map.empty\<rparr>
              \<and> (fs_existsSync (scriptPath e) w'
                   \<and> writeFile_error e (inputFile e (after_wait s1 w')) = None \<longrightarrow>
                 execLog (snd (snd R))
                   = resolve_cmd e (inputFile e (after_wait s1 w')) (outputFile e (after_wait s1 w'))
                       # execLog w')))"
proof -
  let ?key = "cacheKey url headers"
  have "\<exists>c. resolvedLinksCache s1 ?key = Some c \<and> data c = r"
  proof (cases "cache_hit s0 w0 ?key")
    case True
    with assms(1) show ?thesis
      by (auto simp: cache_hit_def resolveLink_hit split: option.splits)
  next
    case False
    with assms have "resolve_miss e url headers n p ?key (s0, w0) = (r, s1, w1)" "lastError s1 = None"
      by (simp_all add: resolveLink_miss)
    then show ?thesis by (rule resolve_miss_success)
  qed
  then obtain c where c: "resolvedLinksCache s1 ?key = Some c" "data c = r"
    by blast
  have fresh: "resolveLink e url headers n' p' (s1, w') = (r, s1, w')"
    if "clock w' - timestamp c < 20 * 60 * 1000" for n' p' w'
    using c that by (simp add: resolveLink_hit cacheExpiryTime_def)
  have stale: "(let forgotten = s1\<lparr>resolvedLinksCache := (resolvedLinksCache s1)(?key := None)\<rparr>;
               R = resolveLink e url headers n' p' (s1, w');
               R' = resolveLink e url headers n' p' (forgotten, w')
           in fst R = fst R' \<and> snd (snd R) = snd (snd R')
              \<and> (fst (snd R))\<lparr>resolvedLinksCache := Map.empty\<rparr>
                  = (fst (snd R'))\<lparr>resolvedLinksCache := Map.empty\<rparr>
              \<and> (fs_existsSync (scriptPath e) w'
                   \<and> writeFile_error e (inputFile e (after_wait s1 w')) = None \<longrightarrow>
                 execLog (snd (snd R))
                   = resolve_cmd e (inputFile e (after_wait s1 w')) (outputFile e (after_wait s1 w'))
                       # execLog w'))"
    if "20 * 60 * 1000 \<le> clock w' - timestamp c" for n' p' w'
  proof -
    let ?forgotten = "s1\<lparr>resolvedLinksCache := (resolvedLinksCache s1)(?key := None)\<rparr>"
    have a: "resolveLink e url headers n' p' (s1, w') = resolve_miss e url headers n' p' ?key (s1, w')"
      using c that by (simp add: resolveLink_miss cache_hit_def cacheExpiryTime_def)
    have b: "resolveLink e url headers n' p' (?forgotten, w')
        = resolve_miss e url headers n' p' ?key (?forgotten, w')"
      by (simp add: resolveLink_miss cache_hit_def)
    show ?thesis
      unfolding Let_def a b
      using resolve_miss_cache [where e = e and url = url and headers = headers and n = n' and p = p'
          and key = ?key and s = s1 and C = "(resolvedLinksCache s1)(?key := None)" and w = w'
          and D = Map.empty]
        resolve_miss_invokes [of e w' s1 url headers n' p' ?key]
      by simp
  qed
  from c fresh stale show ?thesis by blast
qed



theorem resolveLink_cache_window_witness:
  "lastError (fst (snd first_call)) = None
   \<and> resolveLink example_env ''http://src/ch1'' (JObj []) ''Channel1'' JNull
        (fst (snd first_call), later (20 * 60 * 1000 - 1) (snd (snd first_call)))
       = (JObj [], fst (snd first_call), later (20 * 60 * 1000 - 1) (snd (snd first_call)))
   \<and> length (execLog (snd (snd first_call))) = 1
   \<and> length (execLog (snd (snd
        (resolveLink example_env ''http://src/ch1'' (JObj []) ''Channel1'' JNull
           (fst (snd first_call), later (20 * 60 * 1000) (snd (snd first_call))))))) = 2"
proof -
  let ?key = "cacheKey ''http://src/ch1'' (JObj [])"
  let ?s = "fst (snd first_call)"
  let ?w = "snd (snd first_call)"
  have first: "resolveLink example_env ''http://src/ch1'' (JObj []) ''Channel1'' JNull
      (constructor, example_world) = (fst first_call, ?s, ?w)"
    by (simp add: first_call_def)
  have ok: "lastError ?s = None"
    by (simp add: first_call_def example_eval)
  have entry: "resolvedLinksCache ?s ?key = Some \<lparr>timestamp = 1250, data = JObj []\<rparr>"
    by (simp add: first_call_def example_eval)
  have clk: "clock ?w = 1250"
    by (simp add: first_call_def example_eval unlink_temporary_def fs_unlinkSync_def)
  have log: "length (execLog ?w) = 1"
    by (simp add: first_call_def example_eval execLog_unlink_temporary)
  have prog: "fs_existsSync (scriptPath example_env) (later (20 * 60 * 1000) ?w)"
    by (simp add: first_call_def example_eval later_def fs_existsSync_def unlink_temporary_def
        fs_unlinkSync_def)
  have wr: "writeFile_error example_env p = None" for p
    by (simp add: example_env_def)
  from resolveLink_cache_window [OF first disjI2 [OF ok]]
  obtain c where c: "resolvedLinksCache ?s ?key = Some c" "data c = fst first_call"
    and fresh: "\<forall>n' p' w'. clock w' - timestamp c < 20 * 60 * 1000 \<longrightarrow>
           resolveLink example_env ''http://src/ch1'' (JObj []) n' p' (?s, w') = (fst first_call, ?s, w')"
    and stale: "\<forall>n' p' w'. 20 * 60 * 1000 \<le> clock w' - timestamp c \<longrightarrow>
          (let forgotten = ?s\<lparr>resolvedLinksCache := (resolvedLinksCache ?s)(?key := None)\<rparr>;
               R = resolveLink example_env ''http://src/ch1'' (JObj []) n' p' (?s, w');
               R' = resolveLink example_env ''http://src/ch1'' (JObj []) n' p' (forgotten, w')
           in fst R = fst R' \<and> snd (snd R) = snd (snd R')
              \<and> (fst (snd R))\<lparr>resolvedLinksCache := Map.empty\<rparr>
                  = (fst (snd R'))\<lparr>resolvedLinksCache := Map.empty\<rparr>
              \<and> (fs_existsSync (scriptPath example_env) w'
                   \<and> writeFile_error example_env (inputFile example_env (after_wait ?s w')) = None \<longrightarrow>
                 execLog (snd (snd R))
                   = resolve_cmd example_env (inputFile example_env (after_wait ?s w'))
                       (outputFile example_env (after_wait ?s w')) # execLog w'))"
    by (elim exE conjE)
  from c entry have ts: "timestamp c = 1250" and r: "fst first_call = JObj []"
    by auto
  have a: "resolveLink example_env ''http://src/ch1'' (JObj []) ''Channel1'' JNull
        (?s, later (20 * 60 * 1000 - 1) ?w) = (JObj [], ?s, later (20 * 60 * 1000 - 1) ?w)"
    using fresh [rule_format, of "later (20 * 60 * 1000 - 1) ?w" "''Channel1''" JNull] clk
    by (simp add: later_def ts r)
  have cond: "20 * 60 * 1000 \<le> clock (later (20 * 60 * 1000) ?w) - timestamp c"
    using clk ts by (simp add: later_def)
  have "fs_existsSync (scriptPath example_env) (later (20 * 60 * 1000) ?w)
       \<and> writeFile_error example_env
           (inputFile example_env (after_wait ?s (later (20 * 60 * 1000) ?w))) = None \<longrightarrow>
     execLog (snd (snd (resolveLink example_env ''http://src/ch1'' (JObj []) ''Channel1'' JNull
           (?s, later (20 * 60 * 1000) ?w))))
       = resolve_cmd example_env (inputFile example_env (after_wait ?s (later (20 * 60 * 1000) ?w)))
           (outputFile example_env (after_wait ?s (later (20 * 60 * 1000) ?w)))
           # execLog (later (20 * 60 * 1000) ?w)"
    using stale [rule_format, of "later (20 * 60 * 1000) ?w" "''Channel1''" JNull, OF cond]
    unfolding Let_def by (elim conjE)
  with prog wr
  have "execLog (snd (snd (resolveLink example_env ''http://src/ch1'' (JObj []) ''Channel1'' JNull
           (?s, later (20 * 60 * 1000) ?w))))
       = resolve_cmd example_env (inputFile example_env (after_wait ?s (later (20 * 60 * 1000) ?w)))
           (outputFile example_env (after_wait ?s (later (20 * 60 * 1000) ?w)))
           # execLog (later (20 * 60 * 1000) ?w)"
    by blast
  then have b: "length (execLog (snd (snd
        (resolveLink example_env ''http://src/ch1'' (JObj []) ''Channel1'' JNull
           (?s, later (20 * 60 * 1000) ?w))))) = 2"
    using log by (simp add: later_def)
  from ok a log b show ?thesis by simp
qed

text \<open>
  C7. \<^verbatim>\<open>resolveLink\<close> returns a value on every path: each error thrown inside it is a
  branch of \<open>resolve_try\<close> that its \<^verbatim>\<open>catch\<close> turns into a result. On every failure of a
  call that is not served from the cache (the program file is absent, the input file
  cannot be written, the process fails, the output file is absent after the process
  ends, the output file cannot be read, or its text does not parse) the call returns
  \<^verbatim>\<open>null\<close> and \<open>lastError\<close> holds a message that describes the failure.
\<close>

theorem resolveLink_failures:
  assumes "\<not> cache_hit s w (cacheKey url headers)"
  shows
    "(let R = resolveLink e url headers n p (s, w);
          w0 = after_wait s w;
          run = program_run e url headers n p w0
      in (files w (scriptPath e) = None \<longrightarrow>
            fst R = JNull \<and> lastError (fst (snd R)) = Some ''Python resolver script not found'')
       \<and> (files w (scriptPath e) = Some prog \<and> writeFile_error e (inputFile e w0) = Some msg_write \<longrightarrow>
            fst R = JNull \<and> lastError (fst (snd R)) = Some (''Execution error: '' @ msg_write))
       \<and> (files w (scriptPath e) = Some prog \<and> writeFile_error e (inputFile e w0) = None
            \<and> fst run = Inl msg_exec \<longrightarrow>
            fst R = JNull \<and> lastError (fst (snd R)) = Some (''Execution error: '' @ msg_exec))
       \<and> (files w (scriptPath e) = Some prog \<and> writeFile_error e (inputFile e w0) = None
            \<and> fst run = Inr std \<and> files (snd run) (outputFile e w0) = None \<longrightarrow>
            fst R = JNull \<and> lastError (fst (snd R)) = Some ''Output file not created'')
       \<and> (files w (scriptPath e) = Some prog \<and> writeFile_error e (inputFile e w0) = None
            \<and> fst run = Inr std \<and> files (snd run) (outputFile e w0) = Some body
            \<and> readFile_error e (outputFile e w0) = Some msg_read \<longrightarrow>
            fst R = JNull \<and> lastError (fst (snd R)) = Some (''Execution error: '' @ msg_read))
       \<and> (files w (scriptPath e) = Some prog \<and> writeFile_error e (inputFile e w0) = None
            \<and> fst run = Inr std \<and> files (snd run) (outputFile e w0) = Some body
            \<and> readFile_error e (outputFile e w0) = None \<and> JSON_parse e body = Inl msg_parse \<longrightarrow>
            fst R = JNull \<and> lastError (fst (snd R)) = Some (''Parsing error: '' @ msg_parse)))"
  using assms
  by (auto simp: resolveLink_miss resolve_miss_unfold resolve_try_unfold Let_def
      split: prod.splits)


theorem resolveLink_failures_witness:
  "\<not> cache_hit constructor bare_world (cacheKey ''http://src/ch1'' (JObj []))
   \<and> files bare_world (scriptPath example_env) = None
   \<and> fst (resolveLink example_env ''http://src/ch1'' (JObj []) ''Channel1'' JNull (constructor, bare_world))
       = JNull
   \<and> lastError (fst (snd (resolveLink example_env ''http://src/ch1'' (JObj []) ''Channel1'' JNull
        (constructor, bare_world)))) = Some ''Python resolver script not found''
   \<and> fst (program_run failing_program_env ''http://src/ch1'' (JObj []) ''Channel1'' JNull example_world)
       = Inl ''Command failed: exit code 1''
   \<and> fst (resolveLink failing_program_env ''http://src/ch1'' (JObj []) ''Channel1'' JNull
        (constructor, example_world)) = JNull
   \<and> lastError (fst (snd (resolveLink failing_program_env ''http://src/ch1'' (JObj []) ''Channel1'' JNull
        (constructor, example_world)))) = Some ''Execution error: Command failed: exit code 1''
   \<and> files (snd (program_run silent_program_env ''http://src/ch1'' (JObj []) ''Channel1'' JNull example_world))
        (outputFile silent_program_env example_world) = None
   \<and> fst (resolveLink silent_program_env ''http://src/ch1'' (JObj []) ''Channel1'' JNull
        (constructor, example_world)) = JNull
   \<and> lastError (fst (snd (resolveLink silent_program_env ''http://src/ch1'' (JObj []) ''Channel1'' JNull
        (constructor, example_world)))) = Some ''Output file not created''
   \<and> files (snd (program_run garbling_program_env ''http://src/ch1'' (JObj []) ''Channel1'' JNull example_world))
        (outputFile garbling_program_env example_world) = Some ''Traceback''
   \<and> JSON_parse garbling_program_env ''Traceback'' = Inl ''Unexpected end of JSON input''
   \<and> fst (resolveLink garbling_program_env ''http://src/ch1'' (JObj []) ''Channel1'' JNull
        (constructor, example_world)) = JNull
   \<and> lastError (fst (snd (resolveLink garbling_program_env ''http://src/ch1'' (JObj []) ''Channel1'' JNull
        (constructor, example_world)))) = Some ''Parsing error: Unexpected end of JSON input''"
proof -
  let ?key = "cacheKey ''http://src/ch1'' (JObj [])"
  have miss: "\<not> cache_hit constructor w ?key" for w
    by (simp add: cache_hit_def constructor_def)
  have wait: "after_wait constructor w = w" for w
    by (simp add: after_wait_def constructor_def)
  have absent: "files bare_world (scriptPath example_env) = None"
    by (simp add: bare_world_def)
  have present: "files example_world (scriptPath failing_program_env) = Some ''def resolve_link(url): pass''"
    "files example_world (scriptPath silent_program_env) = Some ''def resolve_link(url): pass''"
    "files example_world (scriptPath garbling_program_env) = Some ''def resolve_link(url): pass''"
    by (simp_all add: example_eval)
  have wr: "writeFile_error failing_program_env p = None"
    "writeFile_error silent_program_env p = None"
    "writeFile_error garbling_program_env p = None"
    "readFile_error garbling_program_env p = None" for p
    by (simp_all add: failing_program_env_def silent_program_env_def garbling_program_env_def
        example_env_def)
  have run1: "fst (program_run failing_program_env ''http://src/ch1'' (JObj []) ''Channel1'' JNull example_world)
       = Inl ''Command failed: exit code 1''"
    by (simp add: example_eval)
  have run2: "fst (program_run silent_program_env ''http://src/ch1'' (JObj []) ''Channel1'' JNull example_world)
       = Inr ([], [])"
    by (simp add: example_eval)
  have out2: "files (snd (program_run silent_program_env ''http://src/ch1'' (JObj []) ''Channel1'' JNull example_world))
        (outputFile silent_program_env example_world) = None"
    by (simp add: example_eval)
  have run3: "fst (program_run garbling_program_env ''http://src/ch1'' (JObj []) ''Channel1'' JNull example_world)
       = Inr ([], [])"
    by (simp add: example_eval)
  have out3: "files (snd (program_run garbling_program_env ''http://src/ch1'' (JObj []) ''Channel1'' JNull example_world))
        (outputFile garbling_program_env example_world) = Some ''Traceback''"
    by (simp add: example_eval)
  have parse3: "JSON_parse garbling_program_env ''Traceback'' = Inl ''Unexpected end of JSON input''"
    by (simp add: garbling_program_env_def example_env_def)
  have a: "fst (resolveLink example_env ''http://src/ch1'' (JObj []) ''Channel1'' JNull (constructor, bare_world))
       = JNull
     \<and> lastError (fst (snd (resolveLink example_env ''http://src/ch1'' (JObj []) ''Channel1'' JNull
        (constructor, bare_world)))) = Some ''Python resolver script not found''"
    using resolveLink_failures [OF miss, where e = example_env and w = bare_world
        and n = "''Channel1''" and p = JNull] absent
    by (simp add: Let_def)
  have b: "fst (resolveLink failing_program_env ''http://src/ch1'' (JObj []) ''Channel1'' JNull
        (constructor, example_world)) = JNull
     \<and> lastError (fst (snd (resolveLink failing_program_env ''http://src/ch1'' (JObj []) ''Channel1'' JNull
        (constructor, example_world)))) = Some ''Execution error: Command failed: exit code 1''"
    using resolveLink_failures [OF miss, where e = failing_program_env and w = example_world
        and n = "''Channel1''" and p = JNull and msg_exec = "''Command failed: exit code 1''"
        and prog = "''def resolve_link(url): pass''"] present wr run1
    by (simp add: Let_def wait)
  have c: "fst (resolveLink silent_program_env ''http://src/ch1'' (JObj []) ''Channel1'' JNull
        (constructor, example_world)) = JNull
     \<and> lastError (fst (snd (resolveLink silent_program_env ''http://src/ch1'' (JObj []) ''Channel1'' JNull
        (constructor, example_world)))) = Some ''Output file not created''"
    using resolveLink_failures [OF miss, where e = silent_program_env and w = example_world
        and n = "''Channel1''" and p = JNull and std = "([], [])"
        and prog = "''def resolve_link(url): pass''"] present wr run2 out2
    by (simp add: Let_def wait)
  have d: "fst (resolveLink garbling_program_env ''http://src/ch1'' (JObj []) ''Channel1'' JNull
        (constructor, example_world)) = JNull
     \<and> lastError (fst (snd (resolveLink garbling_program_env ''http://src/ch1'' (JObj []) ''Channel1'' JNull
        (constructor, example_world)))) = Some ''Parsing error: Unexpected end of JSON input''"
    using resolveLink_failures [OF miss, where e = garbling_program_env and w = example_world
        and n = "''Channel1''" and p = JNull and std = "([], [])" and body = "''Traceback''"
        and msg_parse = "''Unexpected end of JSON input''"
        and prog = "''def resolve_link(url): pass''"] present wr run3 out3 parse3
    by (simp add: Let_def wait)
  from miss absent run1 out2 out3 parse3 a b c d show ?thesis by simp
qed

text \<open>
  C9, as the specification states it: after every completed call, a cache hit included,
  \<open>isRunning\<close> is false. The two early returns come before the \<^verbatim>\<open>try\<close> whose \<^verbatim>\<open>finally\<close>
  clears the flag: a call that is served from the cache, or that finds no program file,
  while another call is marked as running, returns with the flag still set.
\<close>

theorem resolveLink_isRunning_counterexample:
  "isRunning busy_resolver
   \<and> fst (resolveLink example_env ''http://src/ch1'' (JObj []) ''Channel1'' JNull
        (busy_resolver, example_world)) = JStr ''http://cdn/ch1''
   \<and> isRunning (fst (snd (resolveLink example_env ''http://src/ch1'' (JObj []) ''Channel1'' JNull
        (busy_resolver, example_world))))
   \<and> fst (resolveLink example_env ''http://src/ch2'' (JObj []) ''Channel2'' JNull
        (busy_resolver, bare_world)) = JNull
   \<and> isRunning (fst (snd (resolveLink example_env ''http://src/ch2'' (JObj []) ''Channel2'' JNull
        (busy_resolver, bare_world))))"
  by code_simp

text \<open>
  C9, amended: a call that gets past the cache check and finds the program file ends
  with \<open>isRunning\<close> false, whatever its outcome; a call served from the cache, and a call
  that finds no program file, leave the flag as it was.
\<close>

theorem resolveLink_isRunning:
  "isRunning (fst (snd (resolveLink e url headers n p (s, w)))) =
     (if cache_hit s w (cacheKey url headers) then isRunning s
      else if fs_existsSync (scriptPath e) w then False
      else isRunning s)"
proof (cases "cache_hit s w (cacheKey url headers)")
  case True
  then show ?thesis
    by (auto simp: cache_hit_def resolveLink_hit split: option.splits)
next
  case False
  then show ?thesis
    by (auto simp: resolveLink_miss resolve_miss_unfold fs_existsSync_def
        split: option.splits sum.splits prod.splits)
qed



theorem resolveLink_isRunning_witness:
  "cache_hit busy_resolver example_world (cacheKey ''http://src/ch2'' (JObj [])) = False
   \<and> fs_existsSync (scriptPath example_env) example_world
   \<and> isRunning busy_resolver
   \<and> isRunning (fst (snd (resolveLink example_env ''http://src/ch2'' (JObj []) ''Channel2'' JNull
        (busy_resolver, example_world)))) = False"
proof -
  have a: "cache_hit busy_resolver example_world (cacheKey ''http://src/ch2'' (JObj [])) = False"
    by code_simp
  have b: "fs_existsSync (scriptPath example_env) example_world"
    by code_simp
  have c: "isRunning busy_resolver"
    by (simp add: busy_resolver_def)
  from resolveLink_isRunning [of example_env "''http://src/ch2''" "JObj []" "''Channel2''" JNull
      busy_resolver example_world] a b c
  show ?thesis by simp
qed



section \<open>Facts about \<^verbatim>\<open>JSON.stringify\<close> on header mappings\<close>

lemma of_char_hex_char:
  "a < 16 \<Longrightarrow> (of_char (hex_char a) :: nat) = (if a < 10 then 48 + a else 87 + a)"
  by (simp add: hex_char_def)

lemma hex_char_inj:
  assumes "a < 16" and "b < 16" and "hex_char a = hex_char b"
  shows "a = b"
proof -
  from assms(3) have "(of_char (hex_char a) :: nat) = of_char (hex_char b)"
    by simp
  with assms(1,2) show ?thesis
    by (simp add: of_char_hex_char split: if_splits)
qed

lemma hex_pair_inj:
  assumes "hex_char ((of_char c :: nat) div 16) = hex_char ((of_char c' :: nat) div 16)"
    and "hex_char ((of_char c :: nat) mod 16) = hex_char ((of_char c' :: nat) mod 16)"
    and "(of_char c :: nat) < 32" and "(of_char c' :: nat) < 32"
  shows "c = c'"
proof -
  have "(of_char c :: nat) div 16 = of_char c' div 16"
    using assms(1,3,4) by (intro hex_char_inj) auto
  moreover have "(of_char c :: nat) mod 16 = of_char c' mod 16"
    using assms(2) by (intro hex_char_inj) auto
  ultimately have "(of_char c :: nat) = of_char c'"
    by (metis div_mult_mod_eq)
  then show ?thesis by simp
qed

lemma quote_char_prefix_free:
  "quote_char c @ x = quote_char c' @ y \<Longrightarrow> c = c' \<and> x = y"
  by (auto simp: quote_char_def split: if_splits dest: hex_pair_inj)


lemma quote_char_nonempty: "quote_char c \<noteq> []"
  by (simp add: quote_char_def)

lemma quote_char_not_quote: "hd (quote_char c) \<noteq> CHR 0x22"
  by (simp add: quote_char_def)

lemma escaped_prefix_free:
  "concat (map quote_char s) @ CHR 0x22 # r = concat (map quote_char s') @ CHR 0x22 # r'
   \<Longrightarrow> s = s' \<and> r = r'"
proof (induction s arbitrary: s')
  case Nil
  show ?case
  proof (cases s')
    case Nil
    with Nil.prems show ?thesis by simp
  next
    case (Cons c cs)
    obtain a as where q: "quote_char c = a # as" "a \<noteq> CHR 0x22"
      using quote_char_nonempty [of c] quote_char_not_quote [of c]
      by (cases "quote_char c") auto
    with Nil.prems Cons show ?thesis by simp
  qed
next
  case (Cons d ds)
  show ?case
  proof (cases s')
    case Nil
    obtain a as where q: "quote_char d = a # as" "a \<noteq> CHR 0x22"
      using quote_char_nonempty [of d] quote_char_not_quote [of d]
      by (cases "quote_char d") auto
    with Cons.prems Nil show ?thesis by simp
  next
    case (Cons c cs)
    with Cons.prems
    have "quote_char d @ (concat (map quote_char ds) @ CHR 0x22 # r)
        = quote_char c @ (concat (map quote_char cs) @ CHR 0x22 # r')"
      by simp
    then have "d = c" and "concat (map quote_char ds) @ CHR 0x22 # r
        = concat (map quote_char cs) @ CHR 0x22 # r'"
      by (auto dest: quote_char_prefix_free)
    with Cons.IH [of cs] Cons show ?thesis by simp
  qed
qed

lemma quote_prefix_free: "quote s @ r = quote s' @ r' \<Longrightarrow> s = s' \<and> r = r'"
  using escaped_prefix_free [of s r s' r'] by (simp add: quote_def)

lemma quote_starts: "\<exists>q. quote s = CHR 0x22 # q"
  by (simp add: quote_def)

lemma join_Cons: "join sep (x # xs) = (if xs = [] then x else x @ sep @ join sep xs)"
  by (cases xs) simp_all

lemma header_entries_inj:
  "join '','' (map (\<lambda>(k, v). quote k @ '':'' @ quote v) kvs) @ ''}''
     = join '','' (map (\<lambda>(k, v). quote k @ '':'' @ quote v) kvs') @ ''}''
   \<Longrightarrow> kvs \<noteq> [] \<Longrightarrow> kvs' \<noteq> [] \<Longrightarrow> kvs = kvs'"
proof (induction kvs arbitrary: kvs')
  case Nil
  then show ?case by simp
next
  case (Cons kv rest)
  obtain k v where kv: "kv = (k, v)" by (cases kv)
  from Cons.prems obtain k' v' rest' where kvs': "kvs' = (k', v') # rest'"
    by (cases kvs') auto
  let ?E = "\<lambda>(k, v). quote k @ '':'' @ quote v"
  let ?T = "\<lambda>xs. if xs = [] then ''}'' else '','' @ join '','' (map ?E xs) @ ''}''"
  from Cons.prems(1) have "quote k @ ('':'' @ quote v @ ?T rest) = quote k' @ ('':'' @ quote v' @ ?T rest')"
    by (simp add: kv kvs' join_Cons split: if_splits)
  then have k: "k = k'" and "'':'' @ quote v @ ?T rest = '':'' @ quote v' @ ?T rest'"
    using quote_prefix_free by blast+
  then have "quote v @ ?T rest = quote v' @ ?T rest'"
    by simp
  then have v: "v = v'" and t: "?T rest = ?T rest'"
    using quote_prefix_free by blast+
  have "rest = rest'"
  proof (cases "rest = []")
    case True
    with t show ?thesis by (auto split: if_splits)
  next
    case False
    with t have "rest' \<noteq> []" by (auto split: if_splits)
    with t False Cons.IH [of rest'] show ?thesis by simp
  qed
  with k v kv kvs' show ?case by simp
qed

lemma JSON_stringify_string_object:
  "JSON_stringify (string_object kvs) =
     (if kvs = [] then ''{}''
      else ''{'' @ join '','' (map (\<lambda>(k, v). quote k @ '':'' @ quote v) kvs) @ ''}'')"
  by (simp add: JSON_stringify_def string_object_def comp_def case_prod_unfold)

lemma JSON_stringify_string_object_inj:
  assumes "JSON_stringify (string_object h1) = JSON_stringify (string_object h2)"
  shows "h1 = h2"
proof -
  have ne: "join '','' (map (\<lambda>(k, v). quote k @ '':'' @ quote v) kvs) \<noteq> []" if "kvs \<noteq> []" for kvs
  proof -
    from that obtain k v rest where "kvs = (k, v) # rest"
      by (cases kvs) auto
    moreover obtain q where "quote k = CHR 0x22 # q"
      using quote_starts by blast
    ultimately show ?thesis
      by (simp add: join_Cons)
  qed
  show ?thesis
  proof (cases "h1 = []")
    case True
    with assms ne [of h2] show ?thesis
      by (auto simp: JSON_stringify_string_object split: if_splits)
  next
    case False
    with assms ne [of h1] have "h2 \<noteq> []"
      by (auto simp: JSON_stringify_string_object split: if_splits)
    with assms False show ?thesis
      by (auto simp: JSON_stringify_string_object intro: header_entries_inj)
  qed
qed


lemma assign_new: "k \<notin> fst ` set ps \<Longrightarrow> assign k v ps = ps @ [(k, v)]"
  by (induction ps) auto

lemma foldl_assign_distinct:
  "distinct (map fst (acc @ ins)) \<Longrightarrow> foldl (\<lambda>obj (k, v). assign k v obj) acc ins = acc @ ins"
proof (induction ins arbitrary: acc)
  case Nil
  then show ?case by simp
next
  case (Cons kv ins)
  obtain k v where kv: "kv = (k, v)" by (cases kv)
  from Cons.prems have "k \<notin> fst ` set acc"
    by (auto simp: kv)
  then have "assign k v acc = acc @ [(k, v)]"
    by (rule assign_new)
  with Cons.IH [of "acc @ [(k, v)]"] Cons.prems show ?case
    by (simp add: kv)
qed

lemma object_of_distinct: "distinct (map fst ins) \<Longrightarrow> object_of ins = ins"
  using foldl_assign_distinct [of "[]" ins] by (simp add: object_of_def)

lemma own_properties_no_index:
  "list_all (\<lambda>(k, v). \<not> is_array_index k) obj \<Longrightarrow> own_properties obj = obj"
proof -
  assume a: "list_all (\<lambda>(k, v). \<not> is_array_index k) obj"
  then have "filter (\<lambda>(k, v). is_array_index k) obj = []"
    by (auto simp: list_all_iff filter_empty_conv)
  moreover from a have "filter (\<lambda>(k, v). \<not> is_array_index k) obj = obj"
    by (auto simp: list_all_iff filter_id_conv)
  ultimately show ?thesis by (simp add: own_properties_def)
qed

lemma Number_inj_on_indices:
  assumes "distinct (map fst obj)" and "list_all (\<lambda>(k, v). is_array_index k) obj"
  shows "inj_on (\<lambda>(k, v). Number k) (set obj)"
proof (rule inj_onI)
  fix x y
  assume x: "x \<in> set obj" and y: "y \<in> set obj"
    and e: "(case x of (k, v) \<Rightarrow> Number k) = (case y of (k, v) \<Rightarrow> Number k)"
  from x y assms(2) have "is_array_index (fst x)" "is_array_index (fst y)"
    by (auto simp: list_all_iff)
  then have "fst x = show_nat (Number (fst x))" "fst y = show_nat (Number (fst y))"
    by (simp_all add: is_array_index_def)
  with e have "fst x = fst y"
    by (simp add: case_prod_unfold)
  with assms(1) x y show "x = y"
    by (auto simp: distinct_map dest: inj_onD)
qed

lemma own_properties_all_index:
  assumes "distinct (map fst a)" and "distinct (map fst b)"
    and "list_all (\<lambda>(k, v). is_array_index k) a" and "list_all (\<lambda>(k, v). is_array_index k) b"
    and "set a = set b"
  shows "own_properties a = own_properties b"
proof -
  let ?f = "\<lambda>(k, v). Number k :: nat"
  have fa: "filter (\<lambda>(k, v). is_array_index k) a = a" "filter (\<lambda>(k, v). \<not> is_array_index k) a = []"
    using assms(3) by (auto simp: list_all_iff filter_id_conv filter_empty_conv)
  have fb: "filter (\<lambda>(k, v). is_array_index k) b = b" "filter (\<lambda>(k, v). \<not> is_array_index k) b = []"
    using assms(4) by (auto simp: list_all_iff filter_id_conv filter_empty_conv)
  have ia: "inj_on ?f (set a)"
    using assms(1,3) by (rule Number_inj_on_indices)
  have da: "distinct a" "distinct b"
    using assms(1,2) by (auto simp: distinct_map)
  have sa: "sorted (map ?f (sort_key ?f a))" and sb: "sorted (map ?f (sort_key ?f b))"
    by simp_all
  have ka: "distinct (map ?f (sort_key ?f a))" and kb: "distinct (map ?f (sort_key ?f b))"
    using ia da assms(5) by (auto simp: distinct_map)
  have st: "set (map ?f (sort_key ?f a)) = set (map ?f (sort_key ?f b))"
    using assms(5) by simp
  have "map ?f (sort_key ?f a) = map ?f (sort_key ?f b)"
    by (rule sorted_distinct_set_unique [OF sa ka sb kb st])
  moreover have "inj_on ?f (set (sort_key ?f a) \<union> set (sort_key ?f b))"
    using ia assms(5) by simp
  ultimately have "sort_key ?f a = sort_key ?f b"
    by (simp add: inj_on_map_eq_map)
  with fa fb show ?thesis
    by (simp add: own_properties_def)
qed

lemma is_array_index_digits: "is_array_index k \<Longrightarrow> list_all is_digit k"
  using show_nat_digits [of "Number k"] by (simp add: is_array_index_def)

lemma header_object_plain:
  "distinct (map fst ins) \<Longrightarrow> list_all (\<lambda>(k, v). \<not> is_array_index k) ins
   \<Longrightarrow> header_object ins = string_object ins"
  by (simp add: header_object_def object_of_distinct own_properties_no_index)

lemma referer_agent_plain:
  "distinct (map fst referer_first)" "distinct (map fst agent_first)"
  "list_all (\<lambda>(k, v). \<not> is_array_index k) referer_first"
  "list_all (\<lambda>(k, v). \<not> is_array_index k) agent_first"
  by (auto simp: referer_first_def agent_first_def is_digit_def dest!: is_array_index_digits)

section \<open>The cache fingerprint\<close>

text \<open>
  C3, as the specification states it: two header mappings with the same key-value pairs
  get the same fingerprint, whatever the order of insertion. \<^verbatim>\<open>JSON.stringify\<close> writes
  the properties in enumeration order, which for names that are not array indices is
  the order of insertion: the two orders of the same two headers give two fingerprints,
  and a result cached under one is not found under the other, so the program is run
  again.
\<close>

theorem cacheKey_header_order_counterexample:
  "header_pairs referer_first = header_pairs agent_first
   \<and> cacheKey ''http://src/ch1'' (header_object referer_first)
       \<noteq> cacheKey ''http://src/ch1'' (header_object agent_first)
   \<and> cache_hit cached_resolver example_world (cacheKey ''http://src/ch1'' (header_object referer_first))
   \<and> \<not> cache_hit cached_resolver example_world (cacheKey ''http://src/ch1'' (header_object agent_first))
   \<and> length (execLog (snd (snd (resolveLink example_env ''http://src/ch1'' (header_object agent_first)
        ''Channel1'' JNull (cached_resolver, example_world))))) = 1"
proof -
  have a: "header_pairs referer_first = header_pairs agent_first"
    by (auto simp: header_pairs_def object_of_def referer_first_def agent_first_def)
  have "cacheKey ''http://src/ch1'' (string_object referer_first)
       \<noteq> cacheKey ''http://src/ch1'' (string_object agent_first)"
    by code_simp
  then have b: "cacheKey ''http://src/ch1'' (header_object referer_first)
       \<noteq> cacheKey ''http://src/ch1'' (header_object agent_first)"
    by (simp add: header_object_plain referer_agent_plain)
  have c: "cache_hit cached_resolver example_world (cacheKey ''http://src/ch1'' (header_object referer_first))"
    by (simp add: cache_hit_def cached_resolver_def constructor_def example_world_def
        cacheExpiryTime_def)
  have d: "\<not> cache_hit cached_resolver example_world (cacheKey ''http://src/ch1'' (header_object agent_first))"
    using b by (simp add: cache_hit_def cached_resolver_def constructor_def)
  have "resolveLink example_env ''http://src/ch1'' (header_object agent_first) ''Channel1'' JNull
      (cached_resolver, example_world)
    = resolve_miss example_env ''http://src/ch1'' (header_object agent_first) ''Channel1'' JNull
        (cacheKey ''http://src/ch1'' (header_object agent_first)) (cached_resolver, example_world)"
    using d by (rule resolveLink_miss)
  moreover have "fs_existsSync (scriptPath example_env) example_world"
    by (simp add: fs_existsSync_def scriptPath_def example_env_def example_world_def)
  moreover have "writeFile_error example_env f = None" for f
    by (simp add: example_env_def)
  ultimately have e: "length (execLog (snd (snd (resolveLink example_env ''http://src/ch1''
        (header_object agent_first) ''Channel1'' JNull (cached_resolver, example_world))))) = 1"
    by (simp add: resolve_miss_invokes example_world_def)
  from a b c d e show ?thesis by simp
qed

text \<open>
  C3, amended: for every url and any two header mappings, names to string values,
  \<^verbatim>\<open>resolveLink\<close> computes the same fingerprint if and only if the two objects enumerate
  the same key-value pairs in the same order, the enumeration taking the array indices
  first, ascending, and the other names in the order of insertion; a fresh result cached
  under one mapping is a cache hit for the other exactly then. So for mappings without
  array indices, each name inserted once, the fingerprints are equal only when the
  insertions are the same in the same order; and for mappings of array indices only,
  each inserted once, the same pairs give the same fingerprint whatever the order of
  insertion.
\<close>

theorem cacheKey_header_order:
  "(cacheKey url (header_object i1) = cacheKey url (header_object i2)
      \<longleftrightarrow> own_properties (object_of i1) = own_properties (object_of i2))
   \<and> (distinct (map fst i1) \<and> distinct (map fst i2)
        \<and> list_all (\<lambda>(k, v). \<not> is_array_index k) i1 \<and> list_all (\<lambda>(k, v). \<not> is_array_index k) i2 \<longrightarrow>
      (cacheKey url (header_object i1) = cacheKey url (header_object i2) \<longleftrightarrow> i1 = i2))
   \<and> (distinct (map fst i1) \<and> distinct (map fst i2)
        \<and> list_all (\<lambda>(k, v). is_array_index k) i1 \<and> list_all (\<lambda>(k, v). is_array_index k) i2
        \<and> set i1 = set i2 \<longrightarrow>
      cacheKey url (header_object i1) = cacheKey url (header_object i2))
   \<and> (resolvedLinksCache s = [cacheKey url (header_object i1) \<mapsto> c]
        \<and> clock w - timestamp c < cacheExpiryTime \<longrightarrow>
      (cache_hit s w (cacheKey url (header_object i2))
         \<longleftrightarrow> own_properties (object_of i1) = own_properties (object_of i2))
      \<and> resolveLink e url (header_object i1) n p (s, w) = (data c, s, w))"
proof (intro conjI impI; (elim conjE)?)
  show a: "cacheKey url (header_object i1) = cacheKey url (header_object i2)
      \<longleftrightarrow> own_properties (object_of i1) = own_properties (object_of i2)"
  proof
    assume "cacheKey url (header_object i1) = cacheKey url (header_object i2)"
    then have "JSON_stringify (string_object (own_properties (object_of i1)))
        = JSON_stringify (string_object (own_properties (object_of i2)))"
      by (simp add: cacheKey_def header_object_def)
    then show "own_properties (object_of i1) = own_properties (object_of i2)"
      by (rule JSON_stringify_string_object_inj)
  next
    assume "own_properties (object_of i1) = own_properties (object_of i2)"
    then show "cacheKey url (header_object i1) = cacheKey url (header_object i2)"
      by (simp add: header_object_def)
  qed
  {
    assume "distinct (map fst i1)" "distinct (map fst i2)"
      "list_all (\<lambda>(k, v). \<not> is_array_index k) i1" "list_all (\<lambda>(k, v). \<not> is_array_index k) i2"
    then have "own_properties (object_of i1) = i1" "own_properties (object_of i2) = i2"
      by (simp_all add: object_of_distinct own_properties_no_index)
    then show "cacheKey url (header_object i1) = cacheKey url (header_object i2) \<longleftrightarrow> i1 = i2"
      by (simp only: a)
  }
  {
    assume d: "distinct (map fst i1)" "distinct (map fst i2)"
      and x: "list_all (\<lambda>(k, v). is_array_index k) i1" "list_all (\<lambda>(k, v). is_array_index k) i2"
      "set i1 = set i2"
    from d x have "own_properties i1 = own_properties i2"
      by (rule own_properties_all_index)
    moreover from d have "object_of i1 = i1" "object_of i2 = i2"
      by (simp_all add: object_of_distinct)
    ultimately have "own_properties (object_of i1) = own_properties (object_of i2)"
      by (simp only:)
    then show "cacheKey url (header_object i1) = cacheKey url (header_object i2)"
      by (simp only: a)
  }
  {
    assume h: "resolvedLinksCache s = [cacheKey url (header_object i1) \<mapsto> c]"
      "clock w - timestamp c < cacheExpiryTime"
    then have "cache_hit s w K \<longleftrightarrow> cacheKey url (header_object i1) = K" for K
      by (auto simp: cache_hit_def)
    then show "cache_hit s w (cacheKey url (header_object i2))
         \<longleftrightarrow> own_properties (object_of i1) = own_properties (object_of i2)"
      by (simp only: a)
    from h show "resolveLink e url (header_object i1) n p (s, w) = (data c, s, w)"
      by (simp add: resolveLink_hit)
  }
qed


theorem cacheKey_header_order_witness:
  "distinct (map fst referer_first) \<and> distinct (map fst agent_first)
   \<and> list_all (\<lambda>(k, v). \<not> is_array_index k) referer_first
   \<and> list_all (\<lambda>(k, v). \<not> is_array_index k) agent_first
   \<and> cacheKey ''http://src/ch1'' (header_object referer_first)
       \<noteq> cacheKey ''http://src/ch1'' (header_object agent_first)
   \<and> distinct (map fst two_then_one) \<and> distinct (map fst one_then_two)
   \<and> list_all (\<lambda>(k, v). is_array_index k) two_then_one
   \<and> list_all (\<lambda>(k, v). is_array_index k) one_then_two
   \<and> set two_then_one = set one_then_two
   \<and> cacheKey ''http://src/ch1'' (header_object two_then_one)
       = cacheKey ''http://src/ch1'' (header_object one_then_two)
   \<and> resolvedLinksCache cached_resolver
       = [cacheKey ''http://src/ch1'' (header_object referer_first)
            \<mapsto> \<lparr>timestamp = 900, data = JStr ''http://cdn/ch1''\<rparr>]
   \<and> clock example_world - 900 < cacheExpiryTime
   \<and> resolveLink example_env ''http://src/ch1'' (header_object referer_first) ''Channel1'' JNull
        (cached_resolver, example_world) = (JStr ''http://cdn/ch1'', cached_resolver, example_world)
   \<and> \<not> cache_hit cached_resolver example_world
         (cacheKey ''http://src/ch1'' (header_object agent_first))"
proof -
  note n = referer_agent_plain
  have sn: "show_nat (Suc 0) = ''1''" "show_nat 2 = ''2''"
    by code_simp+
  have i: "distinct (map fst two_then_one)" "distinct (map fst one_then_two)"
    "list_all (\<lambda>(k, v). is_array_index k) two_then_one"
    "list_all (\<lambda>(k, v). is_array_index k) one_then_two"
    by (simp_all add: two_then_one_def one_then_two_def is_array_index_def Number_def sn)
  have s: "set two_then_one = set one_then_two"
    by (auto simp: two_then_one_def one_then_two_def)
  have r: "referer_first \<noteq> agent_first"
    "own_properties (object_of referer_first) \<noteq> own_properties (object_of agent_first)"
    by (simp_all add: object_of_distinct own_properties_no_index n)
      (simp_all add: referer_first_def agent_first_def)
  have a: "resolvedLinksCache cached_resolver
     = [cacheKey ''http://src/ch1'' (header_object referer_first)
          \<mapsto> \<lparr>timestamp = 900, data = JStr ''http://cdn/ch1''\<rparr>]"
    by (simp add: cached_resolver_def constructor_def)
  have b: "clock example_world - 900 < cacheExpiryTime"
    by (simp add: example_world_def cacheExpiryTime_def)
  note t1 = cacheKey_header_order [where url = "''http://src/ch1''" and ?i1.0 = referer_first
      and ?i2.0 = agent_first and s = cached_resolver and w = example_world
      and c = "\<lparr>timestamp = 900, data = JStr ''http://cdn/ch1''\<rparr>" and e = example_env
      and n = "''Channel1''" and p = JNull]
  note t2 = cacheKey_header_order [where url = "''http://src/ch1''" and ?i1.0 = two_then_one
      and ?i2.0 = one_then_two and s = cached_resolver and w = example_world
      and c = "\<lparr>timestamp = 900, data = JStr ''http://cdn/ch1''\<rparr>" and e = example_env
      and n = "''Channel1''" and p = JNull]
  from t1 n r(1) have k1: "cacheKey ''http://src/ch1'' (header_object referer_first)
       \<noteq> cacheKey ''http://src/ch1'' (header_object agent_first)"
    by blast
  from t2 i s have k2: "cacheKey ''http://src/ch1'' (header_object two_then_one)
       = cacheKey ''http://src/ch1'' (header_object one_then_two)"
    by blast
  from t1 a b r(2) have k3: "resolveLink example_env ''http://src/ch1'' (header_object referer_first)
        ''Channel1'' JNull (cached_resolver, example_world)
        = (data \<lparr>timestamp = 900, data = JStr ''http://cdn/ch1''\<rparr>, cached_resolver, example_world)"
    and k4: "\<not> cache_hit cached_resolver example_world
         (cacheKey ''http://src/ch1'' (header_object agent_first))"
    by simp_all
  from n i s a b k1 k2 k3 k4 show ?thesis by simp
qed

end
